theory Spec2Isabelle
  imports Complex_Main
begin

section \<open>Conventions\<close>

text \<open>
  The development embeds \<^verbatim>\<open>src/code/r2.py\<close>. Python floats and the integers mixed with
  them are modelled as \<^typ>\<open>real\<close>: rounding, infinities and NaN are not represented.
  Random draws are explicit arguments of the operations that consume them.
  Exceptions are values of the type \<open>error\<close>.
\<close>

datatype error = ValueError | IndexError | AttributeError | RuntimeError

section \<open>Prioritized replay buffer (class ReplayBuffer)\<close>

text \<open>A transition is the tuple \<^verbatim>\<open>(state, action, reward, next_state, done)\<close>.\<close>

type_synonym transition = "real list \<times> int \<times> real \<times> real list \<times> bool"

record ReplayBuffer =
  buffer :: "transition list"
  priorities :: "real list"
  capacity :: nat
  alpha :: real
  beta :: real
  beta_increment :: real
  epsilon :: real

text \<open>\<^verbatim>\<open>deque(maxlen=capacity).append\<close>: the item goes to the right end, and an
  item is dropped from the left end when the bound is exceeded.\<close>

definition deque_append :: "nat \<Rightarrow> 'a list \<Rightarrow> 'a \<Rightarrow> 'a list" where
  "deque_append maxlen d x = (let d' = d @ [x] in if maxlen < length d' then tl d' else d')"

definition ReplayBuffer_init :: "nat \<Rightarrow> ReplayBuffer" where
  "ReplayBuffer_init cap =
     \<lparr> buffer = [], priorities = [], capacity = cap, alpha = 6 / 10, beta = 4 / 10,
       beta_increment = 1 / 1000, epsilon = 1 / 1000000 \<rparr>"

text \<open>Python's \<^verbatim>\<open>max\<close> over a non-empty sequence (a left-to-right scan).\<close>

definition list_max :: "real list \<Rightarrow> real" where
  "list_max xs = fold max (tl xs) (hd xs)"

definition push :: "ReplayBuffer \<Rightarrow> transition \<Rightarrow> ReplayBuffer" where
  "push b t =
     (case t of (state, action, reward, next_state, done) \<Rightarrow>
        let max_priority = (if priorities b \<noteq> [] then list_max (priorities b) else 1);
            b1 = b \<lparr> buffer := deque_append (capacity b) (buffer b)
                                  (state, action, reward, next_state, done),
                      priorities := deque_append (capacity b) (priorities b) max_priority \<rparr>
        in if \<not> done
           then b1 \<lparr> buffer := deque_append (capacity b) (buffer b1)
                                  (state, action, 1, next_state, True),
                      priorities := deque_append (capacity b) (priorities b1) max_priority \<rparr>
           else b1)"

text \<open>\<^verbatim>\<open>self.priorities[idx] = ...\<close> on a deque: a negative index counts from the right
  end, an index outside \<open>[-len, len)\<close> raises IndexError.\<close>

definition deque_set :: "'a list \<Rightarrow> int \<Rightarrow> 'a \<Rightarrow> error + 'a list" where
  "deque_set d i v =
     (let n = int (length d); j = (if i < 0 then n + i else i)
      in if 0 \<le> j \<and> j < n then Inr (d[nat j := v]) else Inl IndexError)"

text \<open>\<^verbatim>\<open>update_priorities\<close>: the loop runs over \<^verbatim>\<open>zip(indices, td_errors)\<close>; an
  IndexError leaves the assignments already made in place.\<close>

fun update_priorities ::
  "ReplayBuffer \<Rightarrow> int list \<Rightarrow> real list \<Rightarrow> error option \<times> ReplayBuffer" where
  "update_priorities b (idx # indices) (td_error # td_errors) =
     (case deque_set (priorities b) idx (\<bar>td_error\<bar> + epsilon b) of
        Inl e \<Rightarrow> (Some e, b)
      | Inr ps \<Rightarrow> update_priorities (b \<lparr> priorities := ps \<rparr>) indices td_errors)"
| "update_priorities b _ _ = (None, b)"

text \<open>
  \<^verbatim>\<open>sample\<close>. The argument \<open>indices\<close> is the result of
  \<^verbatim>\<open>np.random.choice(len(self.buffer), batch_size, p=probs)\<close>, so \<open>batch_size\<close> is
  its length. The call raises ValueError when the buffer is empty or the probability
  vector has another length than the buffer (\<^verbatim>\<open>np.random.choice\<close>) and when the batch
  is empty (\<^verbatim>\<open>weights.max()\<close> of an empty array). \<open>beta\<close> is assigned first, so
  the new value stays in every case. numpy's \<^verbatim>\<open>**\<close> is \<open>powr\<close> on a positive base.
\<close>

type_synonym batch = "real list list \<times> int list \<times> real list \<times> real list list \<times> bool list"

definition sample ::
  "ReplayBuffer \<Rightarrow> nat list \<Rightarrow> (error + batch \<times> nat list \<times> real list) \<times> ReplayBuffer" where
  "sample b indices =
     (let b' = b \<lparr> beta := min 1 (beta b + beta_increment b) \<rparr>;
          probs0 = map (\<lambda>p. p powr alpha b') (priorities b');
          probs = map (\<lambda>p. p / sum_list probs0) probs0
      in if buffer b' = [] \<or> length probs \<noteq> length (buffer b') \<or> indices = []
         then (Inl ValueError, b')
         else
           let samples = map (\<lambda>idx. buffer b' ! idx) indices;
               weights0 = map (\<lambda>idx. (real (length (buffer b')) * probs ! idx) powr (- beta b'))
                              indices;
               weights = map (\<lambda>w. w / list_max weights0) weights0;
               states = map (\<lambda>(s, a, r, ns, d). s) samples;
               actions = map (\<lambda>(s, a, r, ns, d). a) samples;
               rewards = map (\<lambda>(s, a, r, ns, d). r) samples;
               next_states = map (\<lambda>(s, a, r, ns, d). ns) samples;
               dones = map (\<lambda>(s, a, r, ns, d). d) samples
           in (Inr ((states, actions, rewards, next_states, dones), indices, weights), b'))"

text \<open>\<^verbatim>\<open>__len__\<close>.\<close>

definition len :: "ReplayBuffer \<Rightarrow> nat" where
  "len b = length (buffer b)"

text \<open>The invariant of the buffer: the floor \<open>epsilon\<close> is positive, every stored
  priority is positive, the two deques have one length, and that length is within the
  capacity.\<close>

definition buf_inv :: "ReplayBuffer \<Rightarrow> bool" where
  "buf_inv b \<longleftrightarrow>
     0 < epsilon b \<and>
     list_all (\<lambda>p. 0 < p) (priorities b) \<and>
     length (priorities b) = length (buffer b) \<and>
     length (buffer b) \<le> capacity b"

text \<open>The sampling probability and the importance weight as the specification words them:
  probability proportional to \<open>priority powr alpha\<close>, weight
  \<open>(buffer_size * probability) powr (- beta)\<close>.\<close>

definition spec_probability :: "ReplayBuffer \<Rightarrow> nat \<Rightarrow> real" where
  "spec_probability b i =
     (priorities b ! i) powr alpha b / (\<Sum>p\<leftarrow>priorities b. p powr alpha b)"

definition spec_weight :: "ReplayBuffer \<Rightarrow> real \<Rightarrow> nat \<Rightarrow> real" where
  "spec_weight b bt i = (real (length (buffer b)) * spec_probability b i) powr (- bt)"


section \<open>Navigation environment (class NavigationEnv)\<close>

text \<open>A position is the two-element list \<^verbatim>\<open>[x, y]\<close>; an obstacle is the dictionary with
  the keys \<^verbatim>\<open>pos\<close>, \<^verbatim>\<open>radius\<close>, \<^verbatim>\<open>angle\<close> and \<^verbatim>\<open>speed\<close>.\<close>

type_synonym vec = "real \<times> real"

record obstacle =
  pos :: vec
  radius :: real
  angle :: real
  ob_speed :: real

record NavigationEnv =
  width :: real
  height :: real
  agent_pos :: vec
  target_pos :: vec
  agent_radius :: real
  target_radius :: real
  speed :: real
  target_speed :: real
  target_angle :: real
  obstacles :: "obstacle list"

text \<open>\<^verbatim>\<open>__init__\<close>; the arguments are the five results of \<^verbatim>\<open>random.random()\<close>.\<close>

definition NavigationEnv_init :: "real \<Rightarrow> real \<Rightarrow> real \<Rightarrow> real \<Rightarrow> real \<Rightarrow> NavigationEnv" where
  "NavigationEnv_init rt r0 r1 r2 r3 =
     \<lparr> width = 1024, height = 768, agent_pos = (400, 300), target_pos = (600, 400),
       agent_radius = 12, target_radius = 15, speed = 4, target_speed = 2,
       target_angle = rt * 2 * pi,
       obstacles =
         [\<lparr> pos = (300, 400), radius = 50, angle = r0 * 2 * pi, ob_speed = 15 / 10 \<rparr>,
          \<lparr> pos = (700, 300), radius = 40, angle = r1 * 2 * pi, ob_speed = 12 / 10 \<rparr>,
          \<lparr> pos = (500, 600), radius = 45, angle = r2 * 2 * pi, ob_speed = 18 / 10 \<rparr>,
          \<lparr> pos = (200, 200), radius = 35, angle = r3 * 2 * pi, ob_speed = 13 / 10 \<rparr>] \<rparr>"

definition distance :: "vec \<Rightarrow> vec \<Rightarrow> real" where
  "distance p q = sqrt ((fst p - fst q)\<^sup>2 + (snd p - snd q)\<^sup>2)"

text \<open>\<^verbatim>\<open>math.atan2(y, x)\<close> (without the sign of a floating-point zero).\<close>

definition atan2 :: "real \<Rightarrow> real \<Rightarrow> real" where
  "atan2 y x =
     (if 0 < x then arctan (y / x)
      else if x < 0 then (if 0 \<le> y then arctan (y / x) + pi else arctan (y / x) - pi)
      else if 0 < y then pi / 2
      else if y < 0 then - pi / 2
      else 0)"

text \<open>One move of length \<open>s\<close> along the heading \<open>a\<close>:
  \<^verbatim>\<open>p[0] += math.cos(a) * s; p[1] += math.sin(a) * s\<close>.\<close>

definition move_by :: "vec \<Rightarrow> real \<Rightarrow> real \<Rightarrow> vec" where
  "move_by p a s = (fst p + cos a * s, snd p + sin a * s)"

text \<open>\<^verbatim>\<open>_check_collision\<close>: the first obstacle that overlaps the agent, or None.\<close>

definition check_collision :: "NavigationEnv \<Rightarrow> obstacle option" where
  "check_collision e =
     find (\<lambda>ob. distance (agent_pos e) (pos ob) < agent_radius e + radius ob) (obstacles e)"

text \<open>\<^verbatim>\<open>_get_state\<close> (the conversion to a float32 tensor is not represented).\<close>

definition get_state :: "NavigationEnv \<Rightarrow> real list" where
  "get_state e =
     [fst (agent_pos e) / width e, snd (agent_pos e) / height e,
      fst (target_pos e) / width e, snd (target_pos e) / height e] @
     concat (map (\<lambda>ob.
       [distance (agent_pos e) (pos ob) / sqrt ((width e)\<^sup>2 + (height e)\<^sup>2),
        atan2 (snd (pos ob) - snd (agent_pos e)) (fst (pos ob) - fst (agent_pos e)) / pi,
        cos (angle ob) * ob_speed ob / speed e,
        sin (angle ob) * ob_speed ob / speed e]) (obstacles e))"

subsection \<open>reset\<close>

text \<open>
  The random draws of one call of \<^verbatim>\<open>reset\<close>: \<open>agent_draws k\<close> is the pair of
  \<^verbatim>\<open>random.randint\<close> results of the \<open>k\<close>-th pass of the placement loop,
  \<open>obstacle_draws i\<close> the two \<^verbatim>\<open>randint\<close> results and the \<^verbatim>\<open>random()\<close> result for
  the \<open>i\<close>-th obstacle.
\<close>

record draws =
  agent_draws :: "nat \<Rightarrow> int \<times> int"
  target_draw :: "int \<times> int"
  target_angle_draw :: real
  obstacle_draws :: "nat \<Rightarrow> (int \<times> int) \<times> real"

definition vec_of :: "int \<times> int \<Rightarrow> vec" where
  "vec_of p = (real_of_int (fst p), real_of_int (snd p))"

text \<open>The ranges of \<^verbatim>\<open>random.randint(50, self.width-50)\<close>,
  \<^verbatim>\<open>random.randint(50, self.height-50)\<close> and \<^verbatim>\<open>random.random()\<close>.\<close>

definition randint_ok :: "NavigationEnv \<Rightarrow> int \<times> int \<Rightarrow> bool" where
  "randint_ok e p \<longleftrightarrow>
     50 \<le> fst p \<and> real_of_int (fst p) \<le> width e - 50 \<and>
     50 \<le> snd p \<and> real_of_int (snd p) \<le> height e - 50"

definition random_ok :: "real \<Rightarrow> bool" where
  "random_ok r \<longleftrightarrow> 0 \<le> r \<and> r < 1"

text \<open>The loop \<^verbatim>\<open>while True: ... if not self._check_collision(): break\<close>; \<open>k\<close> counts the
  passes. A run of the loop that never breaks has the value \<open>None\<close>.\<close>

partial_function (option) place_agent ::
  "NavigationEnv \<Rightarrow> (nat \<Rightarrow> int \<times> int) \<Rightarrow> nat \<Rightarrow> NavigationEnv option" where
  "place_agent e draw k =
     (if check_collision (e \<lparr> agent_pos := vec_of (draw k) \<rparr>) = None
      then Some (e \<lparr> agent_pos := vec_of (draw k) \<rparr>)
      else place_agent (e \<lparr> agent_pos := vec_of (draw k) \<rparr>) draw (k + 1))"

definition reset :: "NavigationEnv \<Rightarrow> draws \<Rightarrow> (real list \<times> NavigationEnv) option" where
  "reset e d =
     (case place_agent e (agent_draws d) 0 of
        None \<Rightarrow> None
      | Some e1 \<Rightarrow>
          let e2 = e1 \<lparr> target_pos := vec_of (target_draw d),
                        target_angle := target_angle_draw d * 2 * pi,
                        obstacles :=
                          map (\<lambda>(i, ob). ob \<lparr> pos := vec_of (fst (obstacle_draws d i)),
                                               angle := snd (obstacle_draws d i) * 2 * pi \<rparr>)
                              (enumerate 0 (obstacles e1)) \<rparr>
          in Some (get_state e2, e2))"

subsection \<open>step\<close>

text \<open>
  The target's position list is shared between names: \<^verbatim>\<open>old_target_pos\<close> is a fresh copy
  (\<open>OldCopy\<close>) of the list that \<^verbatim>\<open>self.target_pos\<close> is bound to at entry
  (\<open>TargetList\<close>), and a bounce rebinds \<^verbatim>\<open>self.target_pos\<close> to the copy before it
  adds to it in place. The store maps each of the two list objects to its contents.
\<close>

datatype ref = TargetList | OldCopy

record target_loop =
  store :: "ref \<Rightarrow> vec"
  target_ref :: ref
  loop_angle :: real

text \<open>Lines 221 to 231: copy, move the target, reflect its heading at the walls.\<close>

definition target_start :: "NavigationEnv \<Rightarrow> target_loop" where
  "target_start e =
     (let st = (\<lambda>r. target_pos e)
                 (TargetList := move_by (target_pos e) (target_angle e) (target_speed e));
          p = st TargetList;
          a1 = (if fst p < target_radius e \<or> fst p > width e - target_radius e
                then pi - target_angle e else target_angle e);
          a2 = (if snd p < target_radius e \<or> snd p > height e - target_radius e
                then - a1 else a1)
      in \<lparr> store = st, target_ref = TargetList, loop_angle = a2 \<rparr>)"

text \<open>The body of the loop of lines 234 to 247, for one obstacle.\<close>

definition target_bounce :: "NavigationEnv \<Rightarrow> target_loop \<Rightarrow> obstacle \<Rightarrow> target_loop" where
  "target_bounce e s ob =
     (let p = store s (target_ref s);
          dist = distance p (pos ob)
      in if dist < target_radius e + radius ob
         then let dx = fst p - fst (pos ob);
                  dy = snd p - snd (pos ob);
                  bounce_angle = atan2 dy dx
              in \<lparr> store = (store s)
                     (OldCopy := move_by (store s OldCopy) bounce_angle (target_speed e)),
                   target_ref = OldCopy,
                   loop_angle = bounce_angle \<rparr>
         else s)"

text \<open>The body of the loop of lines 250 to 263, for one obstacle.\<close>

definition move_obstacle :: "NavigationEnv \<Rightarrow> obstacle \<Rightarrow> obstacle" where
  "move_obstacle e ob =
     (let p = move_by (pos ob) (angle ob) (ob_speed ob);
          a1 = (if fst p < radius ob \<or> fst p > width e - radius ob
                then pi - angle ob else angle ob);
          a2 = (if snd p < radius ob \<or> snd p > height e - radius ob then - a1 else a1)
      in ob \<lparr> pos := (max (radius ob) (min (width e - radius ob) (fst p)),
                      max (radius ob) (min (height e - radius ob) (snd p))),
              angle := a2 \<rparr>)"

text \<open>Lines 221 to 267: the world after the target and the obstacles have moved.\<close>

definition advance_world :: "NavigationEnv \<Rightarrow> NavigationEnv" where
  "advance_world e =
     (let s = foldl (target_bounce e) (target_start e) (obstacles e);
          p = store s (target_ref s)
      in e \<lparr> target_pos :=
               (max (target_radius e) (min (width e - target_radius e) (fst p)),
                max (target_radius e) (min (height e - target_radius e) (snd p))),
             target_angle := loop_angle s,
             obstacles := map (move_obstacle e) (obstacles e) \<rparr>)"

text \<open>Lines 272 to 286: the displacement of an action code.\<close>

definition action_delta :: "real \<Rightarrow> int \<Rightarrow> vec" where
  "action_delta sp action =
     (let dy1 = (if action \<in> set [0, 4, 5] then 0 - sp else 0);
          dy2 = (if action \<in> set [2, 6, 7] then dy1 + sp else dy1);
          dx1 = (if action \<in> set [1, 5, 7] then 0 + sp else 0);
          dx2 = (if action \<in> set [3, 4, 6] then dx1 - sp else dx1)
      in if dx2 \<noteq> 0 \<and> dy2 \<noteq> 0 then (dx2 * (707 / 1000), dy2 * (707 / 1000)) else (dx2, dy2))"

text \<open>Lines 288 to 293: the agent moves and is clamped into the world.\<close>

definition move_agent :: "NavigationEnv \<Rightarrow> int \<Rightarrow> NavigationEnv" where
  "move_agent e action =
     (let d = action_delta (speed e) action;
          x = fst (agent_pos e) + fst d;
          y = snd (agent_pos e) + snd d
      in e \<lparr> agent_pos := (max 0 (min (width e) x), max 0 (min (height e) y)) \<rparr>)"

text \<open>Lines 302 to 319: the bounce off the first overlapping obstacle, or the shaped
  reward. \<open>old_pos\<close> is the agent's position before its move.\<close>

definition resolve_collision :: "NavigationEnv \<Rightarrow> vec \<Rightarrow> NavigationEnv \<times> real" where
  "resolve_collision e old_pos =
     (let dist = distance (agent_pos e) (target_pos e);
          old_dist = distance old_pos (target_pos e)
      in case check_collision e of
           Some obstacle \<Rightarrow>
             let dx = fst (agent_pos e) - fst (pos obstacle);
                 dy = snd (agent_pos e) - snd (pos obstacle);
                 bounce_angle = atan2 dy dx
             in (e \<lparr> agent_pos := move_by old_pos bounce_angle (speed e) \<rparr>, - 2)
         | None \<Rightarrow> (e, (old_dist - dist) * (5 / 10) - 1 / 10))"

text \<open>\<^verbatim>\<open>step\<close>: the result is \<^verbatim>\<open>(state, reward, done)\<close> and the environment after
  the call.\<close>

definition step :: "NavigationEnv \<Rightarrow> int \<Rightarrow> (real list \<times> real \<times> bool) \<times> NavigationEnv" where
  "step e action =
     (let e1 = advance_world e;
          old_pos = agent_pos e1;
          e2 = move_agent e1 action;
          dist = distance (agent_pos e2) (target_pos e2);
          (e3, reward) = resolve_collision e2 old_pos;
          done = (dist < agent_radius e3 + target_radius e3)
      in ((get_state e3, if done then 200 else reward, done), e3))"

text \<open>A sequence of \<^verbatim>\<open>step\<close> calls.\<close>

fun steps :: "NavigationEnv \<Rightarrow> int list \<Rightarrow> NavigationEnv" where
  "steps e [] = e"
| "steps e (a # as) = steps (snd (step e a)) as"

definition in_bounds :: "NavigationEnv \<Rightarrow> bool" where
  "in_bounds e \<longleftrightarrow>
     0 \<le> fst (agent_pos e) \<and> fst (agent_pos e) \<le> width e \<and>
     0 \<le> snd (agent_pos e) \<and> snd (agent_pos e) \<le> height e"

text \<open>The length of a displacement.\<close>

definition magnitude :: "vec \<Rightarrow> real" where
  "magnitude d = sqrt ((fst d)\<^sup>2 + (snd d)\<^sup>2)"

text \<open>The test of line 237: the live target position overlaps the obstacle.\<close>

definition target_overlaps :: "NavigationEnv \<Rightarrow> target_loop \<Rightarrow> obstacle \<Rightarrow> bool" where
  "target_overlaps e s ob \<longleftrightarrow>
     distance (store s (target_ref s)) (pos ob) < target_radius e + radius ob"

subsection \<open>Example configurations\<close>

text \<open>The world of \<^verbatim>\<open>__init__\<close> with all headings 0, the agent and the target near the
  first obstacle.\<close>

definition env_near_target :: NavigationEnv where
  "env_near_target =
     (NavigationEnv_init 0 0 0 0 0)
       \<lparr> agent_pos := (100, 108), target_pos := (100, 128),
         obstacles :=
           [\<lparr> pos = (100, 50), radius = 50, angle = 0, ob_speed = 15 / 10 \<rparr>,
            \<lparr> pos = (700, 300), radius = 40, angle = 0, ob_speed = 12 / 10 \<rparr>,
            \<lparr> pos = (500, 600), radius = 45, angle = 0, ob_speed = 18 / 10 \<rparr>,
            \<lparr> pos = (200, 400), radius = 35, angle = 0, ob_speed = 13 / 10 \<rparr>] \<rparr>"

text \<open>The same world with the target between the first two obstacles.\<close>

definition env_two_bounces :: NavigationEnv where
  "env_two_bounces =
     (NavigationEnv_init 0 0 0 0 0)
       \<lparr> agent_pos := (600, 500), target_pos := (100, 100),
         obstacles :=
           [\<lparr> pos = (160, 100), radius = 50, angle = 0, ob_speed = 15 / 10 \<rparr>,
            \<lparr> pos = (98, 150), radius = 40, angle = 0, ob_speed = 12 / 10 \<rparr>,
            \<lparr> pos = (500, 650), radius = 45, angle = 0, ob_speed = 18 / 10 \<rparr>,
            \<lparr> pos = (800, 400), radius = 35, angle = 0, ob_speed = 13 / 10 \<rparr>] \<rparr>"

text \<open>The heading from \<open>q\<close> to \<open>p\<close>, as lines 239 to 241 and 306 to 308 compute it.\<close>

definition bearing :: "vec \<Rightarrow> vec \<Rightarrow> real" where
  "bearing q p = atan2 (snd p - snd q) (fst p - fst q)"

text \<open>Draws for \<^verbatim>\<open>reset\<close>: the first two candidate positions lie inside the first
  obstacle of \<^verbatim>\<open>__init__\<close>, the third one is free; the last obstacle is placed next
  to the agent and heads left (\<open>0.5 * 2 * pi = pi\<close>).\<close>

definition draws_escape :: draws where
  "draws_escape =
     \<lparr> agent_draws = (\<lambda>k. if k < 2 then (300, 400) else (50, 400)),
       target_draw = (500, 600),
       target_angle_draw = 0,
       obstacle_draws = (\<lambda>i. if i = 0 then ((500, 100), 0)
                              else if i = 1 then ((500, 200), 0)
                              else if i = 2 then ((500, 300), 0)
                              else ((60, 400), 1 / 2)) \<rparr>"

text \<open>Draws whose every candidate position is the centre of the first obstacle.\<close>

definition draws_stuck :: draws where
  "draws_stuck =
     \<lparr> agent_draws = (\<lambda>k. (300, 400)),
       target_draw = (500, 600),
       target_angle_draw = 0,
       obstacle_draws = (\<lambda>i. ((500, 100), 0)) \<rparr>"

text \<open>All draws of a \<^verbatim>\<open>reset\<close> call lie in the ranges of their generators.\<close>

definition draws_ok :: "NavigationEnv \<Rightarrow> draws \<Rightarrow> bool" where
  "draws_ok e d \<longleftrightarrow>
     (\<forall>k. randint_ok e (agent_draws d k)) \<and>
     randint_ok e (target_draw d) \<and>
     random_ok (target_angle_draw d) \<and>
     (\<forall>i. randint_ok e (fst (obstacle_draws d i)) \<and> random_ok (snd (obstacle_draws d i)))"

text \<open>The world \<open>k\<close> steps after \<^verbatim>\<open>reset\<close> with the draws \<open>draws_escape\<close>, when
  every action is 3 (left): the agent walks towards the left wall and the last obstacle
  follows it.\<close>

definition left_walk :: "real \<Rightarrow> NavigationEnv" where
  "left_walk k =
     (NavigationEnv_init 0 0 0 0 0)
       \<lparr> agent_pos := (50 - 4 * k, 400), target_pos := (500 + 2 * k, 600),
         obstacles :=
           [\<lparr> pos = (500 + 15 / 10 * k, 100), radius = 50, angle = 0, ob_speed = 15 / 10 \<rparr>,
            \<lparr> pos = (500 + 12 / 10 * k, 200), radius = 40, angle = 0, ob_speed = 12 / 10 \<rparr>,
            \<lparr> pos = (500 + 18 / 10 * k, 300), radius = 45, angle = 0, ob_speed = 18 / 10 \<rparr>,
            \<lparr> pos = (60 - 13 / 10 * k, 400), radius = 35, angle = pi, ob_speed = 13 / 10 \<rparr>] \<rparr>"

section \<open>Function approximator (class DQNReasoner)\<close>

text \<open>
  Tensors are nested lists. The learned layers are fields of the record, each the function
  its parameters determine: \<open>input_embedding\<close>, \<open>value_stream\<close>,
  \<open>advantage_stream\<close> and \<open>next_state_predictor\<close> act on the last dimension,
  \<open>pos_encoder\<close> holds the \<open>d_model\<close> entries of the parameter of shape
  \<open>(1, 1, d_model)\<close>, and \<open>encoder\<close> stands for lines 85 to 103 (transformer,
  reasoning layers, pooling over the layers), which keep the shape of their input.
  \<open>training\<close> is the mode flag of \<^verbatim>\<open>nn.Module\<close>.
\<close>

type_synonym tensor2 = "real list list"
type_synonym tensor3 = "real list list list"

record DQNReasoner =
  input_embedding :: "real list \<Rightarrow> real list"
  pos_encoder :: "real list"
  encoder :: "tensor3 \<Rightarrow> tensor3"
  value_stream :: "real list \<Rightarrow> real"
  advantage_stream :: "real list \<Rightarrow> real list"
  next_state_predictor :: "real list \<Rightarrow> real list"
  training :: bool

text \<open>\<^verbatim>\<open>forward\<close> returns the pair \<^verbatim>\<open>(q_values, next_state_pred)\<close> in training mode
  and \<^verbatim>\<open>q_values\<close> alone otherwise.\<close>

datatype forward_result = QAndPred tensor3 tensor3 | QOnly tensor3

text \<open>\<^verbatim>\<open>t.mean(dim=1, keepdim=True)\<close> of a tensor of shape \<open>(n, b, a)\<close>: the mean over
  the second dimension, of shape \<open>(n, 1, a)\<close>.\<close>

definition mean_dim1 :: "tensor3 \<Rightarrow> tensor3" where
  "mean_dim1 t =
     map (\<lambda>m. case m of
                 [] \<Rightarrow> [[]]
               | r # _ \<Rightarrow> [map (\<lambda>j. (\<Sum>row\<leftarrow>m. row ! j) / real (length m)) [0..<length r]]) t"

text \<open>Broadcast \<open>(n, b, a) - (n, 1, a)\<close> and \<open>(n, b, 1) + (n, b, a)\<close>.\<close>

definition sub_dim1 :: "tensor3 \<Rightarrow> tensor3 \<Rightarrow> tensor3" where
  "sub_dim1 t mu = map2 (\<lambda>m c. map (\<lambda>row. map2 (-) row (hd c)) m) t mu"

definition add_last :: "tensor3 \<Rightarrow> tensor3 \<Rightarrow> tensor3" where
  "add_last v t = map2 (\<lambda>vm m. map2 (\<lambda>vr row. map (\<lambda>x. hd vr + x) row) vm m) v t"

text \<open>Line 110:
  \<^verbatim>\<open>q_values = value + (advantage - advantage.mean(dim=1, keepdim=True))\<close>.\<close>

definition dueling_combine :: "tensor3 \<Rightarrow> tensor3 \<Rightarrow> tensor3" where
  "dueling_combine value advantage = add_last value (sub_dim1 advantage (mean_dim1 advantage))"

text \<open>\<^verbatim>\<open>forward\<close> on a batch \<open>x\<close> of shape \<open>(b, state_size)\<close>. The sum
  \<^verbatim>\<open>x + self.pos_encoder\<close> broadcasts \<open>(b, d_model)\<close> against \<open>(1, 1, d_model)\<close>
  to the shape \<open>(1, b, d_model)\<close>.\<close>

definition forward :: "DQNReasoner \<Rightarrow> tensor2 \<Rightarrow> forward_result" where
  "forward net x =
     (let x1 = map (input_embedding net) x;
          x2 = [map (\<lambda>row. map2 (+) row (pos_encoder net)) x1];
          x3 = encoder net x2;
          value = map (map (\<lambda>r. [value_stream net r])) x3;
          advantage = map (map (advantage_stream net)) x3;
          q_values = dueling_combine value advantage
      in if training net
         then QAndPred q_values (map (map (next_state_predictor net)) x3)
         else QOnly q_values)"

text \<open>The mean over the actions of \<open>Q - V\<close> for sample \<open>i\<close>, which the dueling
  decomposition of the specification requires to be zero.\<close>

definition spec_action_mean :: "tensor3 \<Rightarrow> tensor3 \<Rightarrow> nat \<Rightarrow> real" where
  "spec_action_mean q v i =
     (\<Sum>x\<leftarrow>hd q ! i. x - hd (hd v ! i)) / real (length (hd q ! i))"

section \<open>Training loop\<close>

definition batch_size :: nat where
  "batch_size = 64"

definition gamma :: real where
  "gamma = 99 / 100"

text \<open>The state the learning update reads and writes: the online and the target
  estimator and the replay buffer.\<close>

record trainer =
  dqn :: DQNReasoner
  target_dqn :: DQNReasoner
  replay_buffer :: ReplayBuffer

text \<open>The values bound by the block of lines 442 to 467 when it runs to its end.\<close>

record update_locals =
  current_q_values :: "real list list"
  target_q_values :: "real list"

text \<open>\<^verbatim>\<open>q.gather(1, actions.unsqueeze(1))\<close> on \<open>q\<close> of shape \<open>(b, a)\<close>: an index
  outside \<open>[0, a)\<close> raises.\<close>

definition gather1 :: "real list list \<Rightarrow> int list \<Rightarrow> error + real list list" where
  "gather1 q actions =
     (if list_all2 (\<lambda>row a. 0 \<le> a \<and> a < int (length row)) q actions
      then Inr (map2 (\<lambda>row a. [row ! nat a]) q actions)
      else Inl RuntimeError)"

text \<open>
  Lines 442 to 467, the whole learning update of the loop. \<open>indices\<close> is the random
  choice made inside \<^verbatim>\<open>sample\<close>. The result is \<open>None\<close> when the buffer is below
  \<open>batch_size\<close>, an error when a call raises (a pair has no \<^verbatim>\<open>squeeze\<close>), and the
  bound values otherwise; the second component is the state after the block.
  The tensors have the shape \<open>(1, 64, 8)\<close>, of which \<^verbatim>\<open>squeeze\<close> removes the first
  dimension.
\<close>

definition learning_update ::
  "trainer \<Rightarrow> nat list \<Rightarrow> (error + update_locals) option \<times> trainer" where
  "learning_update tr indices =
     (if batch_size \<le> len (replay_buffer tr)
      then
        (case sample (replay_buffer tr) indices of
           (Inl e, rb) \<Rightarrow> (Some (Inl e), tr \<lparr> replay_buffer := rb \<rparr>)
         | (Inr ((states, actions, rewards, next_states, dones), idx, weights), rb) \<Rightarrow>
             (let tr' = tr \<lparr> replay_buffer := rb \<rparr>
              in (case forward (dqn tr') states of
                    QAndPred q p \<Rightarrow> (Some (Inl AttributeError), tr')
                  | QOnly q \<Rightarrow>
                      (case gather1 (hd q) actions of
                         Inl e \<Rightarrow> (Some (Inl e), tr')
                       | Inr cur \<Rightarrow>
                           (case forward (target_dqn tr') next_states of
                              QAndPred nq p \<Rightarrow> (Some (Inl AttributeError), tr')
                            | QOnly nq \<Rightarrow>
                                (let next_q_values = map list_max (hd nq);
                                     tgt = map (\<lambda>(r, nv, d).
                                                  r + gamma * nv * (1 - (if d then 1 else 0)))
                                             (zip rewards (zip next_q_values dones))
                                 in (Some (Inr \<lparr> current_q_values = cur,
                                                  target_q_values = tgt \<rparr>), tr')))))))
      else (None, tr))"

subsection \<open>Example configurations\<close>

text \<open>An estimator whose layers are identities, with value stream 0, in evaluation mode
  and in training mode (the mode a new \<^verbatim>\<open>nn.Module\<close> is in).\<close>

definition net_eval :: DQNReasoner where
  "net_eval =
     \<lparr> input_embedding = (\<lambda>x. x), pos_encoder = [0, 0], encoder = (\<lambda>t. t),
       value_stream = (\<lambda>r. 0), advantage_stream = (\<lambda>r. r),
       next_state_predictor = (\<lambda>r. r), training = False \<rparr>"

definition net_train :: DQNReasoner where
  "net_train = net_eval \<lparr> training := True \<rparr>"

text \<open>A trainer whose buffer holds 64 entries, as after 32 non-terminal pushes.\<close>

definition trainer_full :: trainer where
  "trainer_full =
     \<lparr> dqn = net_train, target_dqn = net_train,
       replay_buffer = (ReplayBuffer_init 20000)
         \<lparr> buffer := replicate 64 ([1, 0], 1, - 2, [3, 0], False),
           priorities := replicate 64 1 \<rparr> \<rparr>"

section \<open>Replay buffer: auxiliary facts\<close>


lemma list_max_eq_Max: "xs \<noteq> [] \<Longrightarrow> list_max xs = Max (set xs)"
  by (cases xs) (simp_all add: list_max_def Max.set_eq_fold [symmetric])

lemma list_max_pos: "xs \<noteq> [] \<Longrightarrow> list_all (\<lambda>p. 0 < p) xs \<Longrightarrow> 0 < list_max xs"
  by (cases xs) (auto simp add: list_max_eq_Max list_all_iff Max_gr_iff)

lemma deque_append_drop:
  "deque_append n d x = (if n < length d + 1 then tl (d @ [x]) else d @ [x])"
  by (simp add: deque_append_def Let_def)

lemma length_deque_append:
  "length d \<le> n \<Longrightarrow> length (deque_append n d x) = min n (length d + 1)"
  by (auto simp add: deque_append_def Let_def)

lemma tl_as_drop: "tl xs = drop (Suc 0) xs"
  by (simp add: drop_Suc)

lemma deque_append_as_drop:
  "length d \<le> n \<Longrightarrow> deque_append n d x = drop (length d + 1 - n) (d @ [x])"
proof (cases "n < length d + 1")
  case True
  assume "length d \<le> n"
  with True have n: "length d + 1 - n = Suc 0" by simp
  show ?thesis unfolding n using True by (simp add: deque_append_def Let_def tl_as_drop del: drop_append)
next
  case False
  then show ?thesis by (simp add: deque_append_def Let_def)
qed

lemma list_all_deque_append:
  "list_all P d \<Longrightarrow> P x \<Longrightarrow> list_all P (deque_append n d x)"
  by (cases d) (auto simp add: deque_append_def Let_def)

lemma zip_deque_append:
  "length d = length e \<Longrightarrow>
   zip (deque_append n d x) (deque_append n e y) = deque_append n (zip d e) (x, y)"
  by (cases d; cases e) (auto simp add: deque_append_def Let_def)


lemma push_cases:
  "push b (s, a, r, ns, d) =
     (let mp = (if priorities b \<noteq> [] then list_max (priorities b) else 1);
          c = capacity b
      in if d
         then b \<lparr> buffer := deque_append c (buffer b) (s, a, r, ns, True),
                  priorities := deque_append c (priorities b) mp \<rparr>
         else b \<lparr> buffer := deque_append c (deque_append c (buffer b) (s, a, r, ns, False))
                                 (s, a, 1, ns, True),
                  priorities := deque_append c (deque_append c (priorities b) mp) mp \<rparr>)"
  by (simp add: push_def Let_def)

lemma deque_append_twice:
  assumes le: "length d \<le> n"
  shows "deque_append n (deque_append n d x) y = drop (length d + 2 - n) (d @ [x, y])"
proof -
  let ?k = "length d + 1 - n"
  have l1: "length (deque_append n d x) \<le> n"
    using le by (simp add: length_deque_append)
  have l2: "length (deque_append n d x) = min n (length d + 1)"
    using le by (rule length_deque_append)
  have k: "?k \<le> length (d @ [x])" by simp
  have inner: "deque_append n d x = drop ?k (d @ [x])"
    using le by (rule deque_append_as_drop)
  have "deque_append n (deque_append n d x) y
        = drop (length (deque_append n d x) + 1 - n) (deque_append n d x @ [y])"
    using l1 by (rule deque_append_as_drop)
  also have "\<dots> = drop (min n (length d + 1) + 1 - n) (drop ?k (d @ [x]) @ [y])"
    by (simp only: l2) (simp only: inner)
  also have "drop ?k (d @ [x]) @ [y] = drop ?k ((d @ [x]) @ [y])"
    using k by (simp only: drop_append) simp
  also have "drop (min n (length d + 1) + 1 - n) (drop ?k ((d @ [x]) @ [y]))
        = drop (min n (length d + 1) + 1 - n + ?k) ((d @ [x]) @ [y])"
    by (simp only: drop_drop)
  also have "min n (length d + 1) + 1 - n + ?k = length d + 2 - n"
    using le by (auto simp add: min_def)
  finally show ?thesis by simp
qed


lemma buf_inv_push: "buf_inv b \<Longrightarrow> buf_inv (push b t)"
  by (cases t)
     (auto simp add: buf_inv_def push_cases Let_def length_deque_append list_all_deque_append
        list_max_pos)

lemma zip_push:
  assumes "buf_inv b"
  shows "zip (buffer (push b (s, a, r, ns, d))) (priorities (push b (s, a, r, ns, d))) =
           (let mp = (if priorities b \<noteq> [] then list_max (priorities b) else 1);
                es = zip (buffer b) (priorities b) @
                     (if d then [((s, a, r, ns, True), mp)]
                      else [((s, a, r, ns, False), mp), ((s, a, 1, ns, True), mp)])
            in drop (length es - capacity b) es)"
proof -
  define mp where "mp = (if priorities b \<noteq> [] then list_max (priorities b) else 1)"
  define c where "c = capacity b"
  have eq: "length (buffer b) = length (priorities b)" and le: "length (buffer b) \<le> c"
    using assms by (simp_all add: buf_inv_def c_def)
  have lz: "length (zip (buffer b) (priorities b)) \<le> c" using eq le by simp
  have eq1: "length (deque_append c (buffer b) x) = length (deque_append c (priorities b) y)"
    for x y using eq le by (simp add: length_deque_append)
  show ?thesis
  proof (cases d)
    case True
    have "zip (deque_append c (buffer b) (s, a, r, ns, True)) (deque_append c (priorities b) mp)
          = deque_append c (zip (buffer b) (priorities b)) ((s, a, r, ns, True), mp)"
      using eq by (rule zip_deque_append)
    also have "\<dots> = drop (length (zip (buffer b) (priorities b)) + 1 - c)
                        (zip (buffer b) (priorities b) @ [((s, a, r, ns, True), mp)])"
      using lz by (rule deque_append_as_drop)
    finally show ?thesis using True
      by (simp add: push_cases Let_def flip: mp_def c_def del: drop_append)
  next
    case False
    have "zip (deque_append c (deque_append c (buffer b) (s, a, r, ns, False)) (s, a, 1, ns, True))
              (deque_append c (deque_append c (priorities b) mp) mp)
          = deque_append c (deque_append c (zip (buffer b) (priorities b))
              ((s, a, r, ns, False), mp)) ((s, a, 1, ns, True), mp)"
      by (simp only: zip_deque_append [OF eq1] zip_deque_append [OF eq])
    also have "\<dots> = drop (length (zip (buffer b) (priorities b)) + 2 - c)
                        (zip (buffer b) (priorities b) @
                           [((s, a, r, ns, False), mp), ((s, a, 1, ns, True), mp)])"
      using lz by (rule deque_append_twice)
    finally show ?thesis using False
      by (simp add: push_cases Let_def flip: mp_def c_def del: drop_append)
  qed
qed

lemma deque_set_props:
  "deque_set d i v = Inr d' \<Longrightarrow> length d' = length d \<and> set d' \<subseteq> insert v (set d)"
  by (auto simp add: deque_set_def Let_def split: if_splits dest: subsetD [OF set_update_subset_insert])

lemma buf_inv_update_priorities:
  "buf_inv b \<Longrightarrow> buf_inv (snd (update_priorities b idxs tds))"
proof (induction b idxs tds rule: update_priorities.induct)
  case (1 b idx indices td_error td_errors)
  show ?case
  proof (cases "deque_set (priorities b) idx (\<bar>td_error\<bar> + epsilon b)")
    case (Inl e)
    then show ?thesis using 1 by simp
  next
    case (Inr ps)
    from deque_set_props [OF Inr] 1(2) have "buf_inv (b \<lparr>priorities := ps\<rparr>)"
      by (auto simp add: buf_inv_def list_all_iff)
    then show ?thesis using 1 Inr by simp
  qed
qed simp_all

lemma buf_inv_sample: "buf_inv b \<Longrightarrow> buf_inv (snd (sample b indices))"
  by (simp add: sample_def Let_def buf_inv_def)


lemma list_max_normalised:
  assumes ne: "ws \<noteq> []" and pos: "list_all (\<lambda>w. 0 < w) ws"
  shows "list_all (\<lambda>w. w \<le> 1) (map (\<lambda>w. w / list_max ws) ws)"
    and "list_max (map (\<lambda>w. w / list_max ws) ws) = 1"
proof -
  let ?M = "list_max ws"
  have M: "?M = Max (set ws)" using ne by (rule list_max_eq_Max)
  have Mpos: "0 < ?M" using ne pos by (rule list_max_pos)
  have Min: "?M \<in> set ws" unfolding M using ne by (simp add: Max_in)
  have le: "w \<le> ?M" if "w \<in> set ws" for w unfolding M using that by simp
  show all: "list_all (\<lambda>w. w \<le> 1) (map (\<lambda>w. w / ?M) ws)"
    using le Mpos by (simp add: list_all_iff)
  have ne': "map (\<lambda>w. w / ?M) ws \<noteq> []" using ne by simp
  have "Max (set (map (\<lambda>w. w / ?M) ws)) = 1"
  proof (rule Max_eqI)
    show "finite (set (map (\<lambda>w. w / ?M) ws))" by simp
    show "y \<le> 1" if "y \<in> set (map (\<lambda>w. w / ?M) ws)" for y
      using all that by (auto simp add: list_all_iff)
    have "?M / ?M \<in> set (map (\<lambda>w. w / ?M) ws)" using Min by (simp only: set_map image_eqI)
    then show "1 \<in> set (map (\<lambda>w. w / ?M) ws)" using Mpos by simp
  qed
  then show "list_max (map (\<lambda>w. w / ?M) ws) = 1"
    using list_max_eq_Max [OF ne'] by simp
qed

lemma sum_list_pos_real:
  "xs \<noteq> [] \<Longrightarrow> list_all (\<lambda>x. 0 < x) xs \<Longrightarrow> 0 < sum_list (xs :: real list)"
  by (induction xs) (auto simp add: add_pos_nonneg sum_list_nonneg list_all_iff less_imp_le)


section \<open>Replay buffer: the claims\<close>

text \<open>
  Claim C3 (amended). \<^verbatim>\<open>push\<close> appends the transition and, when it is not terminal, a
  second entry that differs from it only in reward \<open>1.0\<close> and terminal flag
  \<open>True\<close>; the deque then keeps the newest \<open>capacity\<close> entries. The length
  after the call is therefore \<open>min capacity (len + 2)\<close> for a non-terminal
  transition and \<open>min capacity (len + 1)\<close> for a terminal one: it grows by exactly 2
  or 1 only while that many free slots remain.
\<close>

theorem C3_push_length:
  assumes "length (buffer b) \<le> capacity b"
  shows "len (push b (s, a, r, ns, d)) = min (capacity b) (len b + (if d then 1 else 2)) \<and>
         buffer (push b (s, a, r, ns, d)) =
           (let es = buffer b @ (if d then [(s, a, r, ns, True)]
                                 else [(s, a, r, ns, False), (s, a, 1, ns, True)])
            in drop (length es - capacity b) es)"
proof (cases d)
  case True
  then show ?thesis using assms
    by (simp add: push_cases len_def Let_def length_deque_append deque_append_as_drop
          del: drop_append)
next
  case False
  then show ?thesis using assms
    by (simp add: push_cases len_def Let_def deque_append_twice del: drop_append)
qed

theorem C3_push_length_witness:
  "len (push (ReplayBuffer_init 3) ([0], 2, - 2, [1], False)) = 2 \<and>
   buffer (push (ReplayBuffer_init 3) ([0], 2, - 2, [1], False)) =
     [([0], 2, - 2, [1], False), ([0], 2, 1, [1], True)] \<and>
   len (push (push (ReplayBuffer_init 3) ([0], 2, - 2, [1], False)) ([1], 0, 200, [2], True)) = 3"
proof -
  have h0: "length (buffer (ReplayBuffer_init 3)) \<le> capacity (ReplayBuffer_init 3)"
    by (simp add: ReplayBuffer_init_def)
  note s1 = C3_push_length [OF h0, of "[0]" 2 "- 2" "[1]" False]
  have h1: "length (buffer (push (ReplayBuffer_init 3) ([0], 2, - 2, [1], False)))
            \<le> capacity (push (ReplayBuffer_init 3) ([0], 2, - 2, [1], False))"
    using s1 by (simp add: len_def ReplayBuffer_init_def push_cases Let_def)
  note s2 = C3_push_length [OF h1, of "[1]" 0 200 "[2]" True]
  have c: "capacity (push (ReplayBuffer_init 3) ([0], 2, - 2, [1], False)) = 3"
    by (simp add: ReplayBuffer_init_def push_cases Let_def)
  show ?thesis using s1 s2 c by (simp add: len_def ReplayBuffer_init_def Let_def)
qed

text \<open>Counterexample to C3 as stated: a buffer of capacity 2 that already holds two
  entries keeps its length 2 when a non-terminal transition is pushed.\<close>

theorem C3_counterexample:
  "len (push (push (ReplayBuffer_init 2) ([0], 2, - 2, [1], False)) ([1], 3, - 2, [2], False))
   \<noteq> len (push (ReplayBuffer_init 2) ([0], 2, - 2, [1], False)) + 2"
  by (simp add: len_def push_cases ReplayBuffer_init_def Let_def deque_append_def)

text \<open>
  Claim C6. For a call of \<^verbatim>\<open>sample\<close> with a non-empty batch of valid indices on a
  buffer that satisfies the invariant, \<open>beta\<close> is first increased by
  \<open>beta_increment\<close> and capped at 1; each returned weight is
  \<open>(buffer_size * probability) powr (- beta)\<close> for the new \<open>beta\<close>, divided
  by the largest such weight of the batch; every returned weight is at most 1 and the
  largest one is exactly 1.
\<close>

theorem C6_sample_weights:
  assumes inv: "buf_inv b"
    and ne: "indices \<noteq> []"
    and rng: "list_all (\<lambda>i. i < len b) indices"
  shows "(case sample b indices of
            (Inl e, b') \<Rightarrow> False
          | (Inr (batch, idx, ws), b') \<Rightarrow>
              beta b' = min 1 (beta b + beta_increment b) \<and>
              idx = indices \<and>
              ws = map (\<lambda>i. spec_weight b (beta b') i /
                            list_max (map (spec_weight b (beta b')) indices)) indices \<and>
              list_all (\<lambda>w. w \<le> 1) ws \<and>
              list_max ws = 1)"
proof -
  define bt where "bt = min 1 (beta b + beta_increment b)"
  define S where "S = (\<Sum>p\<leftarrow>priorities b. p powr alpha b)"
  define w0 where "w0 = map (spec_weight b bt) indices"
  have leq: "length (priorities b) = length (buffer b)"
    and ppos: "list_all (\<lambda>p. 0 < p) (priorities b)"
    using inv by (simp_all add: buf_inv_def)
  obtain i0 where i0: "i0 \<in> set indices" using ne by (cases indices) auto
  then have "i0 < length (buffer b)" using rng by (simp add: list_all_iff len_def)
  then have bne: "buffer b \<noteq> []" and pne: "priorities b \<noteq> []" using leq by auto
  have Spos: "0 < S"
    unfolding S_def using pne ppos
    by (intro sum_list_pos_real) (auto simp add: list_all_iff)
  have nth: "map (\<lambda>p. p / S) (map (\<lambda>p. p powr alpha b) (priorities b)) ! i = spec_probability b i"
    if "i < length (buffer b)" for i
    using that leq by (simp add: spec_probability_def S_def)
  have w0_eq: "map (\<lambda>idx. (real (length (buffer b)) *
                  map (\<lambda>p. p / S) (map (\<lambda>p. p powr alpha b) (priorities b)) ! idx) powr (- bt))
                indices = w0"
    unfolding w0_def using rng nth by (auto simp add: spec_weight_def list_all_iff len_def)
  have w0pos: "list_all (\<lambda>w. 0 < w) w0"
  proof -
    have "0 < spec_weight b bt i" if "i \<in> set indices" for i
    proof -
      have il: "i < length (priorities b)" using that rng leq by (simp add: list_all_iff len_def)
      then have "0 < priorities b ! i" using ppos by (simp add: list_all_length)
      then have "0 < spec_probability b i"
        using Spos by (simp add: spec_probability_def S_def)
      moreover have "0 < real (length (buffer b))" using bne by simp
      ultimately show ?thesis by (simp add: spec_weight_def)
    qed
    then show ?thesis by (simp add: w0_def list_all_iff)
  qed
  have w0ne: "w0 \<noteq> []" using ne by (simp add: w0_def)
  have sample_eq: "sample b indices =
     (Inr ((map (\<lambda>(s, a, r, ns, d). s) (map (\<lambda>idx. buffer b ! idx) indices),
            map (\<lambda>(s, a, r, ns, d). a) (map (\<lambda>idx. buffer b ! idx) indices),
            map (\<lambda>(s, a, r, ns, d). r) (map (\<lambda>idx. buffer b ! idx) indices),
            map (\<lambda>(s, a, r, ns, d). ns) (map (\<lambda>idx. buffer b ! idx) indices),
            map (\<lambda>(s, a, r, ns, d). d) (map (\<lambda>idx. buffer b ! idx) indices)),
           indices, map (\<lambda>w. w / list_max w0) w0), b \<lparr> beta := bt \<rparr>)"
    using bne ne leq w0_eq by (simp add: sample_def Let_def flip: bt_def S_def)
  have ws_eq: "map (\<lambda>w. w / list_max w0) w0 =
        map (\<lambda>i. spec_weight b bt i / list_max (map (spec_weight b bt) indices)) indices"
    by (simp add: w0_def)
  show ?thesis
    unfolding sample_eq
    using list_max_normalised [OF w0ne w0pos] ws_eq
    by (simp add: bt_def w0_def)
qed

theorem C6_sample_weights_witness:
  "(case sample (push (ReplayBuffer_init 4) ([0], 2, - 2, [1], False)) [0, 1, 1] of
      (Inl e, b') \<Rightarrow> False
    | (Inr (batch, idx, ws), b') \<Rightarrow>
        beta b' = 401 / 1000 \<and> idx = [0, 1, 1] \<and> list_all (\<lambda>w. w \<le> 1) ws \<and> list_max ws = 1)"
proof -
  let ?b = "push (ReplayBuffer_init 4) ([0], 2, - 2, [1], False)"
  have h1: "buf_inv ?b"
    by (simp add: buf_inv_def push_cases ReplayBuffer_init_def Let_def deque_append_def)
  have h2: "[0, 1, 1] \<noteq> ([] :: nat list)" by simp
  have h3: "list_all (\<lambda>i. i < len ?b) [0, 1, 1]"
    by (simp add: len_def push_cases ReplayBuffer_init_def Let_def deque_append_def)
  have bt: "min 1 (beta ?b + beta_increment ?b) = 401 / 1000"
    by (simp add: push_cases ReplayBuffer_init_def Let_def)
  note main = C6_sample_weights [OF h1 h2 h3]
  show ?thesis
  proof (cases "sample ?b [0, 1, 1]")
    case (Pair res b')
    show ?thesis
    proof (cases res)
      case (Inl e)
      with Pair main show ?thesis by simp
    next
      case (Inr x)
      obtain batch idx ws where x: "x = (batch, idx, ws)" by (cases x) auto
      have m: "beta b' = min 1 (beta ?b + beta_increment ?b) \<and> idx = [0, 1, 1] \<and>
          ws = map (\<lambda>i. spec_weight ?b (beta b') i /
                        list_max (map (spec_weight ?b (beta b')) [0, 1, 1])) [0, 1, 1] \<and>
          list_all (\<lambda>w. w \<le> 1) ws \<and> list_max ws = 1"
        using main unfolding Pair Inr x prod.case sum.case .
      from m have m0: "beta b' = min 1 (beta ?b + beta_increment ?b)" by blast
      have m1: "beta b' = 401 / 1000" using m0 bt by (rule trans)
      from m have m2: "idx = [0, 1, 1]" by blast
      from m have m3: "list_all (\<lambda>w. w \<le> 1) ws" by blast
      from m have m4: "list_max ws = 1" by blast
      show ?thesis
        unfolding Pair Inr x prod.case sum.case
        by (intro conjI m1 m2 m3 m4)
    qed
  qed
qed

text \<open>
  Claim C7. The invariant (every stored priority strictly positive, as many priorities as
  transitions, at most \<open>capacity\<close> of them) holds for a new buffer and is kept by
  \<^verbatim>\<open>push\<close>, \<^verbatim>\<open>sample\<close> and \<^verbatim>\<open>update_priorities\<close>; \<^verbatim>\<open>push\<close> evicts from
  the two deques in step, so the pairs of transition and priority after the call are the
  newest \<open>capacity\<close> pairs.
\<close>

theorem C7_buffer_invariant:
  "buf_inv (ReplayBuffer_init cap) \<and>
   (buf_inv b \<longrightarrow>
      buf_inv (push b (s, a, r, ns, d)) \<and>
      buf_inv (snd (sample b indices)) \<and>
      buf_inv (snd (update_priorities b idxs td_errors)) \<and>
      zip (buffer (push b (s, a, r, ns, d))) (priorities (push b (s, a, r, ns, d))) =
        (let mp = (if priorities b \<noteq> [] then list_max (priorities b) else 1);
             es = zip (buffer b) (priorities b) @
                  (if d then [((s, a, r, ns, True), mp)]
                   else [((s, a, r, ns, False), mp), ((s, a, 1, ns, True), mp)])
         in drop (length es - capacity b) es))"
proof -
  have "buf_inv (ReplayBuffer_init cap)"
    by (simp add: buf_inv_def ReplayBuffer_init_def)
  then show ?thesis
    using buf_inv_push [of b "(s, a, r, ns, d)"] buf_inv_sample [of b indices]
      buf_inv_update_priorities [of b idxs td_errors] zip_push [of b s a r ns d]
    by blast
qed

theorem C7_buffer_invariant_witness:
  "buf_inv (push (ReplayBuffer_init 2) ([0], 2, - 2, [1], False)) \<and>
   buf_inv (push (push (ReplayBuffer_init 2) ([0], 2, - 2, [1], False)) ([1], 3, 5, [2], False)) \<and>
   buf_inv (snd (update_priorities (push (ReplayBuffer_init 2) ([0], 2, - 2, [1], False))
                   [1, - 2] [0, - 3]))"
proof -
  let ?b = "push (ReplayBuffer_init 2) ([0], 2, - 2, [1], False)"
  have h0: "buf_inv (ReplayBuffer_init 2)"
    using C7_buffer_invariant [of 2] by simp
  have h1: "buf_inv ?b"
    using C7_buffer_invariant [of 2 "ReplayBuffer_init 2" "[0]" 2 "- 2" "[1]" False] h0 by simp
  show ?thesis
    using C7_buffer_invariant [of 2 ?b "[1]" 3 5 "[2]" False "[]" "[1, - 2]" "[0, - 3]"] h1
    by simp
qed

section \<open>Environment: auxiliary facts\<close>

lemma sqrt_less_iff_sq: "0 < r \<Longrightarrow> sqrt a < r \<longleftrightarrow> a < r\<^sup>2"
proof -
  assume r: "0 < r"
  have "sqrt a < r \<longleftrightarrow> sqrt a < sqrt (r\<^sup>2)" using r by simp
  also have "\<dots> \<longleftrightarrow> a < r\<^sup>2" by (rule real_sqrt_less_iff)
  finally show ?thesis .
qed

lemma distance_less_iff:
  "0 < r \<Longrightarrow> distance p q < r \<longleftrightarrow> (fst p - fst q)\<^sup>2 + (snd p - snd q)\<^sup>2 < r\<^sup>2"
  by (simp add: distance_def sqrt_less_iff_sq)

lemma action_delta_cardinal:
  "action_delta sp 0 = (0, - sp)" "action_delta sp 1 = (sp, 0)"
  "action_delta sp 2 = (0, sp)" "action_delta sp 3 = (- sp, 0)"
  by (simp_all add: action_delta_def Let_def)

lemma action_delta_diagonal:
  "sp \<noteq> 0 \<Longrightarrow> action_delta sp 4 = (- sp * (707 / 1000), - sp * (707 / 1000))"
  "sp \<noteq> 0 \<Longrightarrow> action_delta sp 5 = (sp * (707 / 1000), - sp * (707 / 1000))"
  "sp \<noteq> 0 \<Longrightarrow> action_delta sp 6 = (- sp * (707 / 1000), sp * (707 / 1000))"
  "sp \<noteq> 0 \<Longrightarrow> action_delta sp 7 = (sp * (707 / 1000), sp * (707 / 1000))"
  by (simp_all add: action_delta_def Let_def)

lemma magnitude_diag:
  assumes "0 < sp" "\<bar>x\<bar> = sp * (707 / 1000)" "\<bar>y\<bar> = sp * (707 / 1000)"
  shows "(magnitude (x, y))\<^sup>2 = 999698 / 1000000 * sp\<^sup>2" and "magnitude (x, y) < sp"
    and "magnitude (x, y) = 707 / 1000 * sqrt 2 * sp"
proof -
  have x2: "x\<^sup>2 = (sp * (707 / 1000))\<^sup>2" using assms(2) by (metis power2_abs)
  have y2: "y\<^sup>2 = (sp * (707 / 1000))\<^sup>2" using assms(3) by (metis power2_abs)
  have s: "x\<^sup>2 + y\<^sup>2 = 999698 / 1000000 * sp\<^sup>2"
    unfolding x2 y2 by (simp add: power2_eq_square)
  have nn: "0 \<le> x\<^sup>2 + y\<^sup>2" by simp
  show "(magnitude (x, y))\<^sup>2 = 999698 / 1000000 * sp\<^sup>2"
    using s nn by (simp add: magnitude_def)
  have "x\<^sup>2 + y\<^sup>2 < sp\<^sup>2" unfolding s using assms(1) by simp
  then show "magnitude (x, y) < sp"
    using assms(1) by (simp add: magnitude_def sqrt_less_iff_sq)
  have "x\<^sup>2 + y\<^sup>2 = 2 * (707 / 1000 * sp)\<^sup>2" unfolding x2 y2 by (simp add: power2_eq_square)
  then have "magnitude (x, y) = sqrt 2 * sqrt ((707 / 1000 * sp)\<^sup>2)"
    by (simp add: magnitude_def real_sqrt_mult)
  also have "sqrt ((707 / 1000 * sp)\<^sup>2) = 707 / 1000 * sp" using assms(1) by simp
  finally show "magnitude (x, y) = 707 / 1000 * sqrt 2 * sp" by simp
qed

lemma advance_world_fields:
  "agent_radius (advance_world e) = agent_radius e"
  "target_radius (advance_world e) = target_radius e"
  "agent_pos (advance_world e) = agent_pos e"
  "width (advance_world e) = width e" "height (advance_world e) = height e"
  "speed (advance_world e) = speed e"
  by (simp_all add: advance_world_def Let_def)

lemma move_agent_fields:
  "agent_radius (move_agent e a) = agent_radius e"
  "target_radius (move_agent e a) = target_radius e"
  "target_pos (move_agent e a) = target_pos e"
  "obstacles (move_agent e a) = obstacles e"
  "width (move_agent e a) = width e" "height (move_agent e a) = height e"
  "speed (move_agent e a) = speed e"
  by (simp_all add: move_agent_def Let_def)

lemma resolve_collision_fields:
  "agent_radius (fst (resolve_collision e p)) = agent_radius e"
  "target_radius (fst (resolve_collision e p)) = target_radius e"
  "target_pos (fst (resolve_collision e p)) = target_pos e"
  "obstacles (fst (resolve_collision e p)) = obstacles e"
  "width (fst (resolve_collision e p)) = width e"
  "height (fst (resolve_collision e p)) = height e"
  by (simp_all add: resolve_collision_def Let_def split: option.split)

lemma step_unfold:
  "step e action =
     ((get_state (fst (resolve_collision (move_agent (advance_world e) action) (agent_pos e))),
       if distance (agent_pos (move_agent (advance_world e) action))
                   (target_pos (advance_world e)) < agent_radius e + target_radius e
       then 200 else snd (resolve_collision (move_agent (advance_world e) action) (agent_pos e)),
       distance (agent_pos (move_agent (advance_world e) action))
                (target_pos (advance_world e)) < agent_radius e + target_radius e),
      fst (resolve_collision (move_agent (advance_world e) action) (agent_pos e)))"
  by (simp add: step_def Let_def case_prod_unfold advance_world_fields move_agent_fields
        resolve_collision_fields)

lemma atan2_neg_x_axis: "x < 0 \<Longrightarrow> atan2 0 x = pi"
  by (simp add: atan2_def)

lemma atan2_neg_y_axis: "y < 0 \<Longrightarrow> atan2 y 0 = - (pi / 2)"
  by (simp add: atan2_def)

lemma trig_neg_pi_half: "cos (- (pi / 2)) = 0" "sin (- (pi / 2)) = - 1"
  by simp_all

lemma target_bounce_overlap:
  "target_overlaps e s ob \<Longrightarrow>
   target_bounce e s ob =
     \<lparr> store = (store s)(OldCopy := move_by (store s OldCopy)
                  (bearing (pos ob) (store s (target_ref s))) (target_speed e)),
       target_ref = OldCopy,
       loop_angle = bearing (pos ob) (store s (target_ref s)) \<rparr>"
  by (simp add: target_bounce_def target_overlaps_def bearing_def Let_def)

lemma target_bounce_free: "\<not> target_overlaps e s ob \<Longrightarrow> target_bounce e s ob = s"
  by (simp add: target_bounce_def target_overlaps_def Let_def)

lemma target_bounce_keeps_alias:
  "target_ref s = OldCopy \<Longrightarrow> target_ref (target_bounce e s ob) = OldCopy"
  by (cases "target_overlaps e s ob") (simp_all add: target_bounce_overlap target_bounce_free)

lemma loop_keeps_alias:
  "target_ref s = OldCopy \<Longrightarrow> target_ref (foldl (target_bounce e) s obs) = OldCopy"
  by (induction obs arbitrary: s) (simp_all add: target_bounce_keeps_alias)

lemma start_two: "target_start env_two_bounces =
   \<lparr> store = (\<lambda>r. (100, 100))(TargetList := (102, 100)), target_ref = TargetList, loop_angle = 0 \<rparr>"
  by (simp add: env_two_bounces_def NavigationEnv_init_def target_start_def move_by_def Let_def)

lemma place_agent_returns:
  "check_collision (e \<lparr> agent_pos := vec_of (draw (k + n)) \<rparr>) = None \<Longrightarrow>
   (\<forall>i<n. check_collision (e \<lparr> agent_pos := vec_of (draw (k + i)) \<rparr>) \<noteq> None) \<Longrightarrow>
   place_agent e draw k = Some (e \<lparr> agent_pos := vec_of (draw (k + n)) \<rparr>)"
proof (induction n arbitrary: e k)
  case 0
  then show ?case by (subst place_agent.simps) simp
next
  case (Suc n)
  from Suc.prems(2) have c0: "check_collision (e \<lparr> agent_pos := vec_of (draw k) \<rparr>) \<noteq> None"
    by (metis add.right_neutral zero_less_Suc)
  let ?e = "e \<lparr> agent_pos := vec_of (draw k) \<rparr>"
  have a: "check_collision (?e \<lparr> agent_pos := vec_of (draw (Suc k + n)) \<rparr>) = None"
    using Suc.prems(1) by simp
  have b: "\<forall>i<n. check_collision (?e \<lparr> agent_pos := vec_of (draw (Suc k + i)) \<rparr>) \<noteq> None"
  proof (intro allI impI)
    fix i assume "i < n"
    then have "Suc i < Suc n" by simp
    with Suc.prems(2) have "check_collision (e \<lparr> agent_pos := vec_of (draw (k + Suc i)) \<rparr>) \<noteq> None"
      by blast
    then show "check_collision (?e \<lparr> agent_pos := vec_of (draw (Suc k + i)) \<rparr>) \<noteq> None" by simp
  qed
  have "place_agent e draw k = place_agent ?e draw (k + 1)"
    by (subst place_agent.simps) (simp add: c0)
  also have "\<dots> = Some (?e \<lparr> agent_pos := vec_of (draw (Suc k + n)) \<rparr>)"
    using Suc.IH [OF a b] by simp
  finally show ?case by simp
qed

lemma place_agent_Some:
  assumes "place_agent e draw k = Some r"
  shows "\<exists>i. check_collision (e \<lparr> agent_pos := vec_of (draw (k + i)) \<rparr>) = None"
proof (rule place_agent.raw_induct
    [where P = "\<lambda>e draw k r. \<exists>i. check_collision (e \<lparr> agent_pos := vec_of (draw (k + i)) \<rparr>) = None",
     OF _ assms])
  fix f :: "NavigationEnv \<Rightarrow> (nat \<Rightarrow> int \<times> int) \<Rightarrow> nat \<Rightarrow> NavigationEnv option"
  fix e draw k r
  assume IH: "\<And>e draw k r. f e draw k = Some r \<Longrightarrow>
                \<exists>i. check_collision (e \<lparr> agent_pos := vec_of (draw (k + i)) \<rparr>) = None"
  assume eq: "(if check_collision (e \<lparr> agent_pos := vec_of (draw k) \<rparr>) = None
               then Some (e \<lparr> agent_pos := vec_of (draw k) \<rparr>)
               else f (e \<lparr> agent_pos := vec_of (draw k) \<rparr>) draw (k + 1)) = Some r"
  show "\<exists>i. check_collision (e \<lparr> agent_pos := vec_of (draw (k + i)) \<rparr>) = None"
  proof (cases "check_collision (e \<lparr> agent_pos := vec_of (draw k) \<rparr>) = None")
    case True
    then have "check_collision (e \<lparr> agent_pos := vec_of (draw (k + 0)) \<rparr>) = None" by simp
    then show ?thesis by (rule exI)
  next
    case False
    with eq have "f (e \<lparr> agent_pos := vec_of (draw k) \<rparr>) draw (k + 1) = Some r"
      by (simp only: if_False)
    from IH [OF this]
    obtain i where "check_collision
        (e \<lparr> agent_pos := vec_of (draw k), agent_pos := vec_of (draw (k + 1 + i)) \<rparr>) = None"
      by blast
    then have "check_collision (e \<lparr> agent_pos := vec_of (draw (k + (1 + i))) \<rparr>) = None"
      by (simp add: add.assoc)
    then show ?thesis by (rule exI)
  qed
qed

lemma place_agent_diverges:
  assumes "\<forall>i. check_collision (e \<lparr> agent_pos := vec_of (draw (k + i)) \<rparr>) \<noteq> None"
  shows "place_agent e draw k = None"
proof (cases "place_agent e draw k")
  case None
  then show ?thesis .
next
  case (Some r)
  from place_agent_Some [OF this] assms show ?thesis by blast
qed

lemma init_fields:
  "width (NavigationEnv_init rt r0 r1 r2 r3) = 1024"
  "height (NavigationEnv_init rt r0 r1 r2 r3) = 768"
  "agent_radius (NavigationEnv_init rt r0 r1 r2 r3) = 12"
  "target_radius (NavigationEnv_init rt r0 r1 r2 r3) = 15"
  "speed (NavigationEnv_init rt r0 r1 r2 r3) = 4"
  "target_speed (NavigationEnv_init rt r0 r1 r2 r3) = 2"
  by (simp_all add: NavigationEnv_init_def)

lemma init_free_50_400:
  "check_collision ((NavigationEnv_init 0 0 0 0 0) \<lparr> agent_pos := (50, 400) \<rparr>) = None"
  by (simp add: check_collision_def NavigationEnv_init_def distance_less_iff)

lemma init_hit_300_400:
  "check_collision ((NavigationEnv_init 0 0 0 0 0) \<lparr> agent_pos := (300, 400) \<rparr>) \<noteq> None"
  by (simp add: check_collision_def NavigationEnv_init_def distance_less_iff)

lemma draws_escape_ok: "draws_ok (NavigationEnv_init 0 0 0 0 0) draws_escape"
  by (simp add: draws_ok_def draws_escape_def randint_ok_def random_ok_def init_fields)

lemma draws_stuck_ok: "draws_ok (NavigationEnv_init 0 0 0 0 0) draws_stuck"
  by (simp add: draws_ok_def draws_stuck_def randint_ok_def random_ok_def init_fields)

lemma reset_escape:
  "reset (NavigationEnv_init 0 0 0 0 0) draws_escape = Some (get_state (left_walk 0), left_walk 0)"
proof -
  have "place_agent (NavigationEnv_init 0 0 0 0 0) (agent_draws draws_escape) 0 =
        Some ((NavigationEnv_init 0 0 0 0 0) \<lparr> agent_pos := vec_of (agent_draws draws_escape (0 + 2)) \<rparr>)"
    by (rule place_agent_returns)
       (auto simp add: draws_escape_def vec_of_def init_free_50_400 init_hit_300_400
          less_2_cases_iff)
  moreover have "vec_of (agent_draws draws_escape (0 + 2)) = (50, 400)"
    by (simp add: draws_escape_def vec_of_def)
  ultimately show ?thesis
    by (simp add: reset_def Let_def left_walk_def NavigationEnv_init_def draws_escape_def
          vec_of_def enumerate_eq_zip upt_rec)
qed

lemma reset_stuck: "reset (NavigationEnv_init 0 0 0 0 0) draws_stuck = None"
proof -
  have "place_agent (NavigationEnv_init 0 0 0 0 0) (agent_draws draws_stuck) 0 = None"
    by (rule place_agent_diverges)
       (simp add: draws_stuck_def vec_of_def init_hit_300_400)
  then show ?thesis by (simp add: reset_def)
qed

lemma distance_same_y: "distance (x1, y) (x2, y) = \<bar>x1 - x2\<bar>"
  by (simp add: distance_def)

lemma distance_far_y: "r \<le> \<bar>y1 - y2\<bar> \<Longrightarrow> \<not> distance (x1, y1) (x2, y2) < r"
proof -
  assume a: "r \<le> \<bar>y1 - y2\<bar>"
  have "\<bar>y1 - y2\<bar> = sqrt ((y1 - y2)\<^sup>2)" by simp
  also have "\<dots> \<le> sqrt ((x1 - x2)\<^sup>2 + (y1 - y2)\<^sup>2)"
    by (rule real_sqrt_le_mono) simp
  finally have "\<bar>y1 - y2\<bar> \<le> distance (x1, y1) (x2, y2)" by (simp add: distance_def)
  with a show ?thesis by simp
qed

lemma left_walk_advance:
  assumes "0 \<le> k" "k \<le> 12"
  shows "advance_world (left_walk k) =
           (left_walk (k + 1)) \<lparr> agent_pos := (50 - 4 * k, 400) \<rparr>"
proof -
  let ?e = "left_walk k"
  have ts: "target_start ?e =
      \<lparr> store = (\<lambda>r. (500 + 2 * k, 600))(TargetList := (502 + 2 * k, 600)),
        target_ref = TargetList, loop_angle = 0 \<rparr>"
    using assms
    by (simp add: left_walk_def NavigationEnv_init_def target_start_def move_by_def Let_def)
  have fold: "foldl (target_bounce ?e) (target_start ?e) (obstacles ?e) = target_start ?e"
    unfolding ts
    by (simp add: left_walk_def NavigationEnv_init_def target_bounce_def Let_def distance_far_y)
  have obs: "map (move_obstacle ?e) (obstacles ?e) = obstacles (left_walk (k + 1))"
    using assms
    by (simp add: left_walk_def NavigationEnv_init_def move_obstacle_def move_by_def Let_def
          field_simps)
  have p: "store (target_start ?e) (target_ref (target_start ?e)) = (502 + 2 * k, 600)"
    and la: "loop_angle (target_start ?e) = 0"
    by (simp_all add: ts)
  have fl: "target_radius ?e = 15" "width ?e = 1024" "height ?e = 768"
    by (simp_all add: left_walk_def NavigationEnv_init_def)
  have cl: "max 15 (min (1024 - 15) (502 + 2 * k)) = 502 + 2 * k"
    "max 15 (min (768 - 15) (600 :: real)) = 600"
    using assms by simp_all
  have "advance_world ?e =
          ?e \<lparr> target_pos := (502 + 2 * k, 600), target_angle := 0,
               obstacles := obstacles (left_walk (k + 1)) \<rparr>"
    unfolding advance_world_def Let_def fold obs p la fl fst_conv snd_conv cl ..
  also have "\<dots> = (left_walk (k + 1)) \<lparr> agent_pos := (50 - 4 * k, 400) \<rparr>"
    by (simp add: left_walk_def NavigationEnv_init_def field_simps)
  finally show ?thesis .
qed


lemma left_walk_step:
  assumes "0 \<le> k" "k \<le> 12"
  shows "snd (step (left_walk k) 3) = left_walk (k + 1)"
    and "fst (snd (fst (step (left_walk k) 3))) = - 2"
proof -
  define t where "t = max 0 (min 1024 (50 - 4 * k + - 4))"
  define ox where "ox = 60 - 13 / 10 * (k + 1)"
  let ?ob = "\<lparr> pos = (ox, 400), radius = 35, angle = pi, ob_speed = 13 / 10 \<rparr>"
  let ?e1 = "(left_walk (k + 1)) \<lparr> agent_pos := (50 - 4 * k, 400) \<rparr>"
  let ?e2 = "(left_walk (k + 1)) \<lparr> agent_pos := (t, 400) \<rparr>"
  have adv: "advance_world (left_walk k) = ?e1" using assms by (rule left_walk_advance)
  have mv: "move_agent ?e1 3 = ?e2"
    by (simp add: move_agent_def action_delta_def Let_def left_walk_def NavigationEnv_init_def
          t_def)
  have tb: "0 \<le> t" "t < ox" "ox - t < 47"
    using assms by (auto simp add: t_def ox_def max_def min_def field_simps)
  have d3: "distance (t, 400) (ox, 400) < 12 + 35"
    using tb by (simp add: distance_same_y)
  have cc: "check_collision ?e2 = Some ?ob"
    using d3 unfolding ox_def
    by (simp add: check_collision_def left_walk_def NavigationEnv_init_def distance_far_y)
  have ang: "atan2 (400 - 400) (t - ox) = pi"
    using tb by (simp add: atan2_neg_x_axis)
  have rc: "resolve_collision ?e2 (50 - 4 * k, 400) =
              (?e2 \<lparr> agent_pos := move_by (50 - 4 * k, 400) pi 4 \<rparr>, - 2)"
    unfolding resolve_collision_def Let_def cc
    using ang by (simp add: left_walk_def NavigationEnv_init_def)
  have fin: "?e2 \<lparr> agent_pos := move_by (50 - 4 * k, 400) pi 4 \<rparr> = left_walk (k + 1)"
    by (simp add: move_by_def left_walk_def NavigationEnv_init_def field_simps)
  have ap: "agent_pos (left_walk k) = (50 - 4 * k, 400)"
    by (simp add: left_walk_def)
  have far: "\<not> distance (t, 400) (target_pos ?e1) < agent_radius (left_walk k) + target_radius (left_walk k)"
    by (simp add: left_walk_def NavigationEnv_init_def distance_far_y)
  show "snd (step (left_walk k) 3) = left_walk (k + 1)"
    unfolding step_unfold adv mv ap rc using fin by simp
  show "fst (snd (fst (step (left_walk k) 3))) = - 2"
    unfolding step_unfold adv mv ap rc using far by simp
qed

lemma left_walk_steps:
  "0 \<le> k \<Longrightarrow> k + real n \<le> 13 \<Longrightarrow>
   steps (left_walk k) (replicate n 3) = left_walk (k + real n)"
proof (induction n arbitrary: k)
  case 0
  then show ?case by simp
next
  case (Suc n)
  have k12: "k \<le> 12" using Suc.prems by simp
  have "steps (left_walk k) (replicate (Suc n) 3) = steps (left_walk (k + 1)) (replicate n 3)"
    by (simp add: left_walk_step(1) [OF Suc.prems(1) k12])
  also have "\<dots> = left_walk (k + 1 + real n)"
    using Suc.prems by (intro Suc.IH) simp_all
  also have "k + 1 + real n = k + real (Suc n)" by simp
  finally show ?case .
qed

lemma left_walk_leaves:
  "agent_pos (steps (left_walk 0) (replicate 13 3)) = (- 2, 400)"
  using left_walk_steps [of 0 13] by (simp add: left_walk_def)

section \<open>Estimator and training loop: auxiliary facts\<close>

lemma dueling_two:
  "dueling_combine [[[0], [0]]] [[[1, 0], [3, 0]]] = [[[- 1, 0], [1, 0]]]"
  by (simp add: dueling_combine_def add_last_def sub_dim1_def mean_dim1_def upt_rec)

lemma spec_mean_two:
  "spec_action_mean (dueling_combine [[[0], [0]]] [[[1, 0], [3, 0]]]) [[[0], [0]]] 0 = - 1 / 2"
  unfolding dueling_two by (simp add: spec_action_mean_def)

lemma forward_two:
  "forward net_eval [[1, 0], [3, 0]] = QOnly [[[- 1, 0], [1, 0]]]"
  by (simp add: forward_def net_eval_def Let_def dueling_two)

lemma forward_one:
  "forward net_eval [[1, 0]] = QOnly [[[0, 0]]]"
  by (simp add: forward_def net_eval_def Let_def dueling_combine_def add_last_def sub_dim1_def
        mean_dim1_def upt_rec)

lemma sample_state:
  "snd (sample b indices) = b \<lparr> beta := min 1 (beta b + beta_increment b) \<rparr>"
  by (simp add: sample_def Let_def)

lemma learning_update_state:
  "snd (learning_update tr indices) =
     (if batch_size \<le> len (replay_buffer tr)
      then tr \<lparr> replay_buffer := (replay_buffer tr)
                  \<lparr> beta := min 1 (beta (replay_buffer tr) + beta_increment (replay_buffer tr)) \<rparr> \<rparr>
      else tr)"
proof (cases "batch_size \<le> len (replay_buffer tr)")
  case False
  then show ?thesis by (simp add: learning_update_def)
next
  case True
  obtain r rb where s: "sample (replay_buffer tr) indices = (r, rb)"
    by (cases "sample (replay_buffer tr) indices")
  have rb: "rb = (replay_buffer tr)
      \<lparr> beta := min 1 (beta (replay_buffer tr) + beta_increment (replay_buffer tr)) \<rparr>"
    using sample_state [of "replay_buffer tr" indices] s by simp
  show ?thesis
    using True s rb
    by (auto simp add: learning_update_def Let_def
          split: sum.split prod.split forward_result.split)
qed

section \<open>Environment: the claims\<close>

text \<open>
  Claim C5. Whenever the distance between agent and target, measured after the agent has
  moved and been clamped, is below the sum of their radii, \<^verbatim>\<open>step\<close> returns
  \<open>done = True\<close> and the reward 200, whatever reward the collision bounce
  (\<open>- 2\<close>) or the distance shaping gave in that step; and \<open>done\<close> is true in
  no other case.
\<close>

theorem C5_target_reached:
  "(distance (agent_pos (move_agent (advance_world e) a))
             (target_pos (move_agent (advance_world e) a)) < agent_radius e + target_radius e
      \<longrightarrow> snd (fst (step e a)) = (200, True)) \<and>
   (snd (snd (fst (step e a))) \<longleftrightarrow>
      distance (agent_pos (move_agent (advance_world e) a))
               (target_pos (move_agent (advance_world e) a)) < agent_radius e + target_radius e)"
  by (simp add: step_unfold move_agent_fields)

theorem C5_target_reached_witness:
  "check_collision (move_agent (advance_world env_near_target) 3) \<noteq> None \<and>
   snd (resolve_collision (move_agent (advance_world env_near_target) 3)
          (agent_pos env_near_target)) = - 2 \<and>
   snd (fst (step env_near_target 3)) = (200, True)"
proof -
  have h: "distance (agent_pos (move_agent (advance_world env_near_target) 3))
                    (target_pos (move_agent (advance_world env_near_target) 3))
           < agent_radius env_near_target + target_radius env_near_target"
    by (simp add: env_near_target_def NavigationEnv_init_def advance_world_def move_agent_def
          target_start_def target_bounce_def move_obstacle_def move_by_def action_delta_def
          Let_def distance_less_iff)
  have c: "check_collision (move_agent (advance_world env_near_target) 3) \<noteq> None"
    by (simp add: env_near_target_def NavigationEnv_init_def advance_world_def move_agent_def
          target_start_def target_bounce_def move_obstacle_def move_by_def action_delta_def
          check_collision_def Let_def distance_less_iff power_divide)
  then have r: "snd (resolve_collision (move_agent (advance_world env_near_target) 3)
                  (agent_pos env_near_target)) = - 2"
    by (auto simp add: resolve_collision_def Let_def split: option.split)
  from C5_target_reached [of env_near_target 3] h
  have "snd (fst (step env_near_target 3)) = (200, True)" by blast
  with c r show ?thesis by blast
qed

text \<open>
  Claim C8 (amended). A cardinal action displaces the agent by exactly \<open>speed\<close>. A
  diagonal action (codes 4 to 7) scales each component by the constant \<open>0.707\<close>, so
  each component has the absolute value \<open>0.707 * speed\<close> and the displacement has the
  length \<open>0.707 * sqrt 2 * speed\<close>, whose square is \<open>0.999698 * speed\<^sup>2\<close>: close
  to, but strictly less than, the cardinal displacement.
\<close>

theorem C8_diagonal_displacement:
  assumes "0 < sp"
  shows "(a \<in> {0, 1, 2, 3} \<longrightarrow> magnitude (action_delta sp a) = sp) \<and>
         (a \<in> {4, 5, 6, 7} \<longrightarrow>
            \<bar>fst (action_delta sp a)\<bar> = sp * (707 / 1000) \<and>
            \<bar>snd (action_delta sp a)\<bar> = sp * (707 / 1000) \<and>
            magnitude (action_delta sp a) = 707 / 1000 * sqrt 2 * sp \<and>
            (magnitude (action_delta sp a))\<^sup>2 = 999698 / 1000000 * sp\<^sup>2 \<and>
            magnitude (action_delta sp a) < sp)"
proof -
  have card: "magnitude (action_delta sp a) = sp" if "a \<in> {0, 1, 2, 3}"
    using that assms by (auto simp add: action_delta_cardinal magnitude_def)
  have ne: "sp \<noteq> 0" using assms by simp
  have diag: "\<bar>fst (action_delta sp a)\<bar> = sp * (707 / 1000) \<and>
              \<bar>snd (action_delta sp a)\<bar> = sp * (707 / 1000)" if "a \<in> {4, 5, 6, 7}"
    using that assms by (auto simp add: action_delta_diagonal [OF ne] abs_mult)
  show ?thesis
  proof (intro conjI impI)
    assume "a \<in> {0, 1, 2, 3}" then show "magnitude (action_delta sp a) = sp" by (rule card)
  next
    assume d: "a \<in> {4, 5, 6, 7}"
    obtain x y where xy: "action_delta sp a = (x, y)" by (cases "action_delta sp a")
    from diag [OF d] xy have ax: "\<bar>x\<bar> = sp * (707 / 1000)" and ay: "\<bar>y\<bar> = sp * (707 / 1000)"
      by simp_all
    show "\<bar>fst (action_delta sp a)\<bar> = sp * (707 / 1000)" using diag [OF d] by simp
    show "\<bar>snd (action_delta sp a)\<bar> = sp * (707 / 1000)" using diag [OF d] by simp
    show "magnitude (action_delta sp a) = 707 / 1000 * sqrt 2 * sp"
      unfolding xy using assms ax ay by (rule magnitude_diag(3))
    show "(magnitude (action_delta sp a))\<^sup>2 = 999698 / 1000000 * sp\<^sup>2"
      unfolding xy using assms ax ay by (rule magnitude_diag(1))
    show "magnitude (action_delta sp a) < sp"
      unfolding xy using assms ax ay by (rule magnitude_diag(2))
  qed
qed

theorem C8_diagonal_displacement_witness:
  "magnitude (action_delta (speed (NavigationEnv_init 0 0 0 0 0)) 1) = 4 \<and>
   fst (action_delta (speed (NavigationEnv_init 0 0 0 0 0)) 7) = 2828 / 1000 \<and>
   (magnitude (action_delta (speed (NavigationEnv_init 0 0 0 0 0)) 7))\<^sup>2 = 15995168 / 1000000 \<and>
   magnitude (action_delta (speed (NavigationEnv_init 0 0 0 0 0)) 7) < 4"
proof -
  have sp: "speed (NavigationEnv_init 0 0 0 0 0) = 4" by (simp add: NavigationEnv_init_def)
  have h: "(0::real) < 4" by simp
  have f: "fst (action_delta 4 7) = 2828 / 1000" by (simp add: action_delta_def Let_def)
  from C8_diagonal_displacement [OF h, of 1] C8_diagonal_displacement [OF h, of 7] f
  show ?thesis unfolding sp by simp
qed

text \<open>Counterexample to C8 as stated: at the agent's speed 4 the diagonal action 5 moves
  the agent by less than the cardinal action 1 does.\<close>

theorem C8_counterexample:
  "magnitude (action_delta (speed (NavigationEnv_init 0 0 0 0 0)) 5)
   \<noteq> magnitude (action_delta (speed (NavigationEnv_init 0 0 0 0 0)) 1)"
proof -
  have sp: "speed (NavigationEnv_init 0 0 0 0 0) = 4" by (simp add: NavigationEnv_init_def)
  have d: "action_delta 4 5 = (4 * (707 / 1000), - 4 * (707 / 1000))"
    by (simp add: action_delta_def Let_def)
  have "magnitude (4 * (707 / 1000), - 4 * (707 / 1000)) < 4"
    by (rule magnitude_diag(2)) simp_all
  moreover have "magnitude (action_delta 4 1) = 4"
    by (simp add: action_delta_cardinal magnitude_def)
  ultimately show ?thesis unfolding sp d by simp
qed

text \<open>
  Claim C10. In the loop over the obstacles, the first overlap rebinds the target position
  to the saved copy and moves that copy in place; from then on the saved position and the
  live position are one object. A later overlap in the same tick therefore starts its
  bounce from the live position, which the earlier bounce produced, and not from the
  position the target had before it moved.
\<close>

theorem C10_revert_restores_bounced_position:
  assumes first: "target_overlaps e s ob1"
  shows "(let s1 = target_bounce e s ob1;
              s2 = foldl (target_bounce e) s1 mids;
              s3 = target_bounce e s2 ob2
          in store s1 (target_ref s1) =
               move_by (store s OldCopy) (bearing (pos ob1) (store s (target_ref s)))
                 (target_speed e) \<and>
             target_ref s2 = OldCopy \<and>
             (target_overlaps e s2 ob2 \<longrightarrow>
                store s3 (target_ref s3) =
                  move_by (store s2 (target_ref s2))
                    (bearing (pos ob2) (store s2 (target_ref s2))) (target_speed e)))"
proof -
  define s1 where "s1 = target_bounce e s ob1"
  define s2 where "s2 = foldl (target_bounce e) s1 mids"
  have r1: "target_ref s1 = OldCopy"
    unfolding s1_def using first by (simp add: target_bounce_overlap)
  have a: "store s1 (target_ref s1) =
             move_by (store s OldCopy) (bearing (pos ob1) (store s (target_ref s))) (target_speed e)"
    unfolding s1_def using first by (simp add: target_bounce_overlap)
  have r2: "target_ref s2 = OldCopy"
    unfolding s2_def using r1 by (rule loop_keeps_alias)
  have c: "store (target_bounce e s2 ob2) (target_ref (target_bounce e s2 ob2)) =
             move_by (store s2 (target_ref s2))
               (bearing (pos ob2) (store s2 (target_ref s2))) (target_speed e)"
    if "target_overlaps e s2 ob2"
    using that r2 by (simp add: target_bounce_overlap)
  show ?thesis
    using a r2 c by (simp add: Let_def flip: s1_def s2_def)
qed

theorem C10_revert_restores_bounced_position_witness:
  "target_overlaps env_two_bounces (target_start env_two_bounces)
     (obstacles env_two_bounces ! 0) \<and>
   target_overlaps env_two_bounces
     (target_bounce env_two_bounces (target_start env_two_bounces) (obstacles env_two_bounces ! 0))
     (obstacles env_two_bounces ! 1) \<and>
   store (target_bounce env_two_bounces (target_start env_two_bounces)
            (obstacles env_two_bounces ! 0)) OldCopy = (98, 100) \<and>
   store (target_bounce env_two_bounces
            (target_bounce env_two_bounces (target_start env_two_bounces)
               (obstacles env_two_bounces ! 0))
            (obstacles env_two_bounces ! 1)) OldCopy = (98, 98) \<and>
   target_pos (advance_world env_two_bounces) = (98, 98) \<and>
   move_by (target_pos env_two_bounces) (- (pi / 2)) (target_speed env_two_bounces) = (100, 98)"
proof -
  let ?e = "env_two_bounces"
  let ?ob1 = "obstacles ?e ! 0"
  let ?ob2 = "obstacles ?e ! 1"
  let ?s = "target_start ?e"
  have ob1: "?ob1 = \<lparr> pos = (160, 100), radius = 50, angle = 0, ob_speed = 15 / 10 \<rparr>"
    and ob2: "?ob2 = \<lparr> pos = (98, 150), radius = 40, angle = 0, ob_speed = 12 / 10 \<rparr>"
    and tr: "target_radius ?e = 15" and ts: "target_speed ?e = 2"
    and tp: "target_pos ?e = (100, 100)"
    by (simp_all add: env_two_bounces_def NavigationEnv_init_def)
  have h1: "target_overlaps ?e ?s ?ob1"
    unfolding ob1 by (simp add: target_overlaps_def start_two tr distance_less_iff)
  note main = C10_revert_restores_bounced_position [OF h1, of "[]" ?ob2, unfolded Let_def foldl.simps]
  note m1 = main [THEN conjunct1]
  note m2 = main [THEN conjunct2, THEN conjunct1]
  note m3 = main [THEN conjunct2, THEN conjunct2, rule_format]
  have b1: "bearing (pos ?ob1) (store ?s (target_ref ?s)) = pi"
    unfolding ob1 by (simp add: bearing_def start_two atan2_neg_x_axis)
  have so: "store ?s OldCopy = (100, 100)" by (simp add: start_two)
  have s1: "store (target_bounce ?e ?s ?ob1) (target_ref (target_bounce ?e ?s ?ob1)) = (98, 100)"
    using m1 unfolding b1 so ts by (simp add: move_by_def)
  have r1: "target_ref (target_bounce ?e ?s ?ob1) = OldCopy"
    by (rule m2)
  have h2: "target_overlaps ?e (target_bounce ?e ?s ?ob1) ?ob2"
    unfolding target_overlaps_def s1 unfolding ob2 by (simp add: tr distance_less_iff)
  have b2: "bearing (pos ?ob2) (98, 100) = - (pi / 2)"
    unfolding ob2 by (simp add: bearing_def atan2_neg_y_axis)
  have s2: "store (target_bounce ?e (target_bounce ?e ?s ?ob1) ?ob2)
              (target_ref (target_bounce ?e (target_bounce ?e ?s ?ob1) ?ob2)) = (98, 98)"
    using m3 [OF h2] b2 unfolding s1 ts by (simp add: move_by_def)
  have r2: "target_ref (target_bounce ?e (target_bounce ?e ?s ?ob1) ?ob2) = OldCopy"
    using r1 by (rule target_bounce_keeps_alias)
  have adv: "target_pos (advance_world ?e) = (98, 98)"
    by (simp add: env_two_bounces_def NavigationEnv_init_def advance_world_def
          target_start_def target_bounce_def move_obstacle_def move_by_def
          Let_def distance_less_iff atan2_neg_x_axis atan2_neg_y_axis)
  have rev: "move_by (target_pos ?e) (- (pi / 2)) (target_speed ?e) = (100, 98)"
    by (simp add: tp ts move_by_def)
  show ?thesis
    using h1 h2 s1 s2 adv rev unfolding r1 r2 by (intro conjI)
qed

text \<open>
  Claim C4 (amended). The placement loop of \<^verbatim>\<open>reset\<close> is rejection sampling without a
  retry cap and without an error path. \<^verbatim>\<open>reset\<close> returns exactly when some candidate
  position is free of the obstacles: it then places the agent at the first free candidate.
  When every candidate overlaps an obstacle the loop never ends.
\<close>

theorem C4_reset_placement_loop:
  "(check_collision (e \<lparr> agent_pos := vec_of (agent_draws d n) \<rparr>) = None \<and>
    (\<forall>i<n. check_collision (e \<lparr> agent_pos := vec_of (agent_draws d i) \<rparr>) \<noteq> None)
      \<longrightarrow> (case reset e d of
             None \<Rightarrow> False
           | Some (obs, e') \<Rightarrow> agent_pos e' = vec_of (agent_draws d n) \<and> obs = get_state e')) \<and>
   ((\<forall>i. check_collision (e \<lparr> agent_pos := vec_of (agent_draws d i) \<rparr>) \<noteq> None)
      \<longrightarrow> reset e d = None)"
proof (intro conjI impI)
  assume a: "check_collision (e \<lparr> agent_pos := vec_of (agent_draws d n) \<rparr>) = None \<and>
    (\<forall>i<n. check_collision (e \<lparr> agent_pos := vec_of (agent_draws d i) \<rparr>) \<noteq> None)"
  have "place_agent e (agent_draws d) 0 = Some (e \<lparr> agent_pos := vec_of (agent_draws d (0 + n)) \<rparr>)"
    by (rule place_agent_returns) (use a in simp_all)
  then show "case reset e d of
             None \<Rightarrow> False
           | Some (obs, e') \<Rightarrow> agent_pos e' = vec_of (agent_draws d n) \<and> obs = get_state e'"
    by (simp add: reset_def Let_def)
next
  assume "\<forall>i. check_collision (e \<lparr> agent_pos := vec_of (agent_draws d i) \<rparr>) \<noteq> None"
  then have "place_agent e (agent_draws d) 0 = None"
    by (intro place_agent_diverges) simp
  then show "reset e d = None" by (simp add: reset_def)
qed

theorem C4_reset_placement_loop_witness:
  "draws_ok (NavigationEnv_init 0 0 0 0 0) draws_escape \<and>
   (case reset (NavigationEnv_init 0 0 0 0 0) draws_escape of
      None \<Rightarrow> False
    | Some (obs, e') \<Rightarrow> agent_pos e' = (50, 400) \<and> obs = get_state e')"
proof -
  let ?e = "NavigationEnv_init 0 0 0 0 0"
  have v: "vec_of (agent_draws draws_escape 2) = (50, 400)"
    by (simp add: draws_escape_def vec_of_def)
  have h: "check_collision (?e \<lparr> agent_pos := vec_of (agent_draws draws_escape 2) \<rparr>) = None \<and>
           (\<forall>i<2. check_collision (?e \<lparr> agent_pos := vec_of (agent_draws draws_escape i) \<rparr>) \<noteq> None)"
    by (auto simp add: draws_escape_def vec_of_def init_free_50_400 init_hit_300_400
          less_2_cases_iff)
  from C4_reset_placement_loop [where e = ?e and d = draws_escape and n = 2,
      THEN conjunct1, rule_format, OF h]
  show ?thesis unfolding v using draws_escape_ok by simp
qed

text \<open>Counterexample to C4 as stated: with candidate positions that all lie inside the
  first obstacle, each within the range of its generator, \<^verbatim>\<open>reset\<close> does not
  return.\<close>

theorem C4_counterexample:
  "draws_ok (NavigationEnv_init 0 0 0 0 0) draws_stuck \<and>
   reset (NavigationEnv_init 0 0 0 0 0) draws_stuck = None"
  using draws_stuck_ok reset_stuck by simp

text \<open>
  Claim C2. The agent is clamped into \<open>[0, width] \<times> [0, height]\<close> before the
  collision test, but the bounce that follows a collision is not clamped. From the state
  that \<^verbatim>\<open>reset\<close> produces with the draws \<open>draws_escape\<close>, thirteen steps with
  action 3 (left) take the agent to \<open>(2, 400)\<close> after twelve steps; in the thirteenth
  step the move is clamped to \<open>(0, 400)\<close>, the agent overlaps the obstacle on its
  right, and the bounce leaves it at \<open>(- 2, 400)\<close>, outside the world.
\<close>

theorem C2_agent_leaves_bounds:
  "draws_ok (NavigationEnv_init 0 0 0 0 0) draws_escape \<and>
   reset (NavigationEnv_init 0 0 0 0 0) draws_escape =
     Some (get_state (left_walk 0), left_walk 0) \<and>
   in_bounds (left_walk 0) \<and>
   agent_pos (steps (left_walk 0) (replicate 12 3)) = (2, 400) \<and>
   agent_pos (move_agent (advance_world (steps (left_walk 0) (replicate 12 3))) 3) = (0, 400) \<and>
   agent_pos (steps (left_walk 0) (replicate 13 3)) = (- 2, 400) \<and>
   \<not> in_bounds (steps (left_walk 0) (replicate 13 3))"
proof -
  have s12: "steps (left_walk 0) (replicate 12 3) = left_walk 12"
    using left_walk_steps [of 0 12] by simp
  have s13: "steps (left_walk 0) (replicate 13 3) = left_walk 13"
    using left_walk_steps [of 0 13] by simp
  have a: "in_bounds (left_walk 0)"
    by (simp add: in_bounds_def left_walk_def NavigationEnv_init_def)
  have b: "agent_pos (left_walk 12) = (2, 400)" by (simp add: left_walk_def)
  have adv: "advance_world (left_walk 12) = (left_walk (12 + 1)) \<lparr> agent_pos := (50 - 4 * 12, 400) \<rparr>"
    by (rule left_walk_advance) simp_all
  have c: "agent_pos (move_agent (advance_world (left_walk 12)) 3) = (0, 400)"
    unfolding adv
    by (simp add: move_agent_def action_delta_def Let_def left_walk_def NavigationEnv_init_def)
  have d: "agent_pos (left_walk 13) = (- 2, 400)" by (simp add: left_walk_def)
  have e: "\<not> in_bounds (left_walk 13)"
    by (simp add: in_bounds_def left_walk_def)
  show ?thesis
    unfolding s12 s13 using draws_escape_ok reset_escape a b c d e by (intro conjI)
qed

section \<open>Estimator and training loop: the claims\<close>

text \<open>
  Claim C9. \<^verbatim>\<open>forward\<close> adds the position parameter of shape \<open>(1, 1, d_model)\<close> to
  the embedded batch, so its tensors have the shape \<open>(1, batch, ...)\<close> and
  \<^verbatim>\<open>advantage.mean(dim=1, keepdim=True)\<close> averages over the samples of the batch, for each
  action, and not over the actions. For a batch of two samples with the advantages
  \<open>[1, 0]\<close> and \<open>[3, 0]\<close> and the value 0 the result is
  \<open>[[[- 1, 0], [1, 0]]]\<close>, of shape \<open>(1, 2, 2)\<close>; the mean over the actions of
  \<open>Q - V\<close> for the first sample is \<open>- 1 / 2\<close>, not zero. For a single sample the
  advantage cancels and every action gets the value \<open>V\<close>.
\<close>

theorem C9_dueling_centres_over_batch:
  "dueling_combine [[[0], [0]]] [[[1, 0], [3, 0]]] = [[[- 1, 0], [1, 0]]] \<and>
   spec_action_mean (dueling_combine [[[0], [0]]] [[[1, 0], [3, 0]]]) [[[0], [0]]] 0 = - 1 / 2 \<and>
   forward net_eval [[1, 0], [3, 0]] = QOnly [[[- 1, 0], [1, 0]]] \<and>
   forward net_eval [[1, 0]] = QOnly [[[0, 0]]]"
  using dueling_two spec_mean_two forward_two forward_one by (intro conjI)

text \<open>
  Claim C1. The learning update of the loop ends with the computation of the target values:
  no temporal-difference error is formed, no loss reaches the optimizer and
  \<^verbatim>\<open>update_priorities\<close> is not called. For every state and every choice of indices
  the block leaves the online estimator, the target estimator, the stored transitions
  and the priorities as they were; its only effect on the state is the new \<open>beta\<close>
  that \<^verbatim>\<open>sample\<close> assigns.
\<close>

theorem C1_learning_update_changes_only_beta:
  "snd (learning_update tr indices) =
     (if batch_size \<le> len (replay_buffer tr)
      then tr \<lparr> replay_buffer := (replay_buffer tr)
                  \<lparr> beta := min 1 (beta (replay_buffer tr) +
                                      beta_increment (replay_buffer tr)) \<rparr> \<rparr>
      else tr) \<and>
   dqn (snd (learning_update tr indices)) = dqn tr \<and>
   target_dqn (snd (learning_update tr indices)) = target_dqn tr \<and>
   buffer (replay_buffer (snd (learning_update tr indices))) = buffer (replay_buffer tr) \<and>
   priorities (replay_buffer (snd (learning_update tr indices))) = priorities (replay_buffer tr)"
  by (simp add: learning_update_state)

theorem C1_learning_update_changes_only_beta_witness:
  "batch_size \<le> len (replay_buffer trainer_full) \<and>
   fst (learning_update trainer_full (replicate 64 0)) = Some (Inl AttributeError) \<and>
   dqn (snd (learning_update trainer_full (replicate 64 0))) = net_train \<and>
   priorities (replay_buffer (snd (learning_update trainer_full (replicate 64 0))))
     = replicate 64 1 \<and>
   beta (replay_buffer (snd (learning_update trainer_full (replicate 64 0)))) = 401 / 1000"
proof -
  have l: "batch_size \<le> len (replay_buffer trainer_full)"
    by (simp add: batch_size_def len_def trainer_full_def)
  have e: "fst (learning_update trainer_full (replicate 64 0)) = Some (Inl AttributeError)"
    by (simp add: learning_update_def batch_size_def sample_def Let_def trainer_full_def
          len_def ReplayBuffer_init_def forward_def net_train_def net_eval_def)
  note main = C1_learning_update_changes_only_beta [of trainer_full "replicate 64 0"]
  have d: "dqn (snd (learning_update trainer_full (replicate 64 0))) = net_train"
    using main by (simp add: trainer_full_def)
  have p: "priorities (replay_buffer (snd (learning_update trainer_full (replicate 64 0))))
           = replicate 64 1"
    using main by (simp add: trainer_full_def)
  have b: "beta (replay_buffer (snd (learning_update trainer_full (replicate 64 0)))) = 401 / 1000"
    using main l by (simp add: trainer_full_def ReplayBuffer_init_def)
  show ?thesis using l e d p b by (intro conjI)
qed

end
